theory Spec2Isabelle
  imports Complex_Main
begin

section \<open>Name sign generator: data model\<close>

text \<open>
  The program is Python. Its \<open>float\<close> values are modelled as \<^typ>\<open>real\<close> (exact
  arithmetic, no rounding, no infinities), its \<open>str\<close> values as \<^typ>\<open>string\<close>, its
  \<open>list\<close> values as HOL lists and \<open>None\<close>-or-value fields as \<^typ>\<open>'a option\<close>.
  A Python exception is a value \<open>Inl e\<close> of a sum type. A leading underscore of a
  Python name is dropped, since an Isabelle name cannot start with one.
\<close>

datatype py_error = ZeroDivisionError | IndexError | ValueError

text \<open>\<open>CHAR_WIDTH_RATIO = 0.55\<close>\<close>

definition CHAR_WIDTH_RATIO :: real where
  "CHAR_WIDTH_RATIO = 55 / 100"

text \<open>\<open>class StyledRun\<close>: the fields carry the prefix \<open>run_\<close>, because \<open>SignParams\<close> has
  fields \<open>bold\<close>, \<open>italic\<close> and \<open>underline\<close> too.\<close>

record StyledRun =
  run_text :: string
  run_bold :: bool
  run_italic :: bool
  run_underline :: bool

text \<open>\<open>class SignParams\<close>\<close>

record SignParams =
  lines :: "string list"
  styled_lines :: "StyledRun list list option"
  sizes :: "real list option"
  width :: real
  height :: real
  thickness :: real
  text_depth :: real
  font :: string
  bold :: bool
  italic :: bool
  underline :: bool
  border_style :: string
  corner_radius :: real
  border_offset :: real
  border_width :: real
  line_spacing :: real
  output_prefix :: string

text \<open>The default values of the dataclass \<open>SignParams\<close>.\<close>

definition default_params :: SignParams where
  "default_params =
     \<lparr> lines = [''Her bor'', ''Ola Nordmann''], styled_lines = None, sizes = None,
       width = 180, height = 120, thickness = 3, text_depth = 6 / 10,
       font = ''Arial'', bold = False, italic = False, underline = False,
       border_style = ''concave'', corner_radius = 12, border_offset = 6,
       border_width = 2, line_spacing = 13 / 10, output_prefix = ''namesign'' \<rparr>"

subsection \<open>Strings\<close>

text \<open>
  \<open>str.strip()\<close> removes leading and trailing whitespace. A \<^typ>\<open>char\<close> is read as
  a code point below 256; the whitespace code points of Python in that range are
  9 to 13, 28 to 32, 133 and 160.
\<close>

definition py_isspace :: "char \<Rightarrow> bool" where
  "py_isspace c =
     (let k = (of_char c :: nat)
      in (9 \<le> k \<and> k \<le> 13) \<or> (28 \<le> k \<and> k \<le> 32) \<or> k = 133 \<or> k = 160)"

definition strip :: "string \<Rightarrow> string" where
  "strip s = rev (dropWhile py_isspace (rev (dropWhile py_isspace s)))"

section \<open>Corner radius\<close>

text \<open>\<open>_clamp_radius(r, w, h)\<close>: \<open>max(0, min(r, w / 2 - 0.1, h / 2 - 0.1))\<close>\<close>

definition clamp_radius :: "real \<Rightarrow> real \<Rightarrow> real \<Rightarrow> real" where
  "clamp_radius r w h = max 0 (min r (min (w / 2 - 1 / 10) (h / 2 - 1 / 10)))"

section \<open>Text layout\<close>

text \<open>\<open>_get_line_texts(params)\<close>\<close>

definition get_line_texts :: "SignParams \<Rightarrow> string list" where
  "get_line_texts params =
     (case styled_lines params of
        Some sl \<Rightarrow> map (\<lambda>runs. concat (map run_text runs)) sl
      | None \<Rightarrow> lines params)"

text \<open>The padding chosen by \<open>auto_font_sizes\<close>.\<close>

definition padding :: "SignParams \<Rightarrow> real" where
  "padding params =
     (if border_style params \<noteq> ''none'' \<and> border_width params > 0
      then border_offset params + border_width params + 3
      else max (corner_radius params * (5 / 10)) 4)"

text \<open>The loop \<open>for line in lines\<close> of \<open>auto_font_sizes\<close>, with the running value of
  \<open>uniform\<close> as accumulator.\<close>

fun cap_by_width :: "real \<Rightarrow> real \<Rightarrow> string list \<Rightarrow> real" where
  "cap_by_width available_w uniform [] = uniform"
| "cap_by_width available_w uniform (line # rest) =
     (let text = strip line
      in if text = [] then cap_by_width available_w uniform rest
         else cap_by_width available_w
                (min uniform (available_w / (real (length text) * CHAR_WIDTH_RATIO))) rest)"

text \<open>\<open>auto_font_sizes(params)\<close>. The division by \<open>1 + (n_text - 1) * line_spacing\<close>
  raises \<open>ZeroDivisionError\<close> when the divisor is zero; the divisor of the width cap
  is never zero, since the stripped text is not empty there.\<close>

definition auto_font_sizes :: "SignParams \<Rightarrow> py_error + real list" where
  "auto_font_sizes params =
     (let lines = get_line_texts params;
          n = length lines
      in if n = 0 then Inr []
      else
        let non_empty = filter (\<lambda>l. strip l \<noteq> []) lines
        in if non_empty = [] then Inr (replicate n 10)
        else
          let available_w = width params - 2 * padding params;
              available_h = height params - 2 * padding params
          in if available_w \<le> 0 \<or> available_h \<le> 0 then Inr (replicate n 5)
          else
            let n_text = length non_empty;
                divisor = 1 + (real n_text - 1) * line_spacing params
            in if divisor = 0 then Inl ZeroDivisionError
            else
              let base_size = available_h / divisor
              in Inr (replicate n (cap_by_width available_w base_size lines)))"

text \<open>\<open>_calc_line_positions(line_data, line_spacing)\<close>: \<open>line_data\<close> is a list of pairs
  (text, size).\<close>

definition line_gaps :: "(string \<times> real) list \<Rightarrow> real \<Rightarrow> real list" where
  "line_gaps line_data ls =
     map (\<lambda>i. (snd (line_data ! i) / 2 + snd (line_data ! (i + 1)) / 2) * ls)
       [0 ..< length line_data - 1]"

definition calc_line_positions :: "(string \<times> real) list \<Rightarrow> real \<Rightarrow> real list" where
  "calc_line_positions line_data ls =
     (let n = length line_data
      in if n = 0 then []
      else if n = 1 then [0]
      else
        let gaps = line_gaps line_data ls;
            total_span = sum_list gaps
        in foldl (\<lambda>y_positions gap. y_positions @ [last y_positions - gap])
             [total_span / 2] gaps)"

section \<open>The CAD kernel\<close>

text \<open>
  The program builds its geometry with the CadQuery library, which is not part of the
  repository. A CadQuery object is modelled by the term of the calls that build it:
  a \<open>wire\<close> is a workplane holding a closed 2D outline, a \<open>solid\<close> a 3D body.
  \<open>Rect c w h\<close> is \<open>Workplane("XY").center(c).rect(w, h)\<close> (\<open>c = (0, 0)\<close> without
  \<open>center\<close>), \<open>Path p segs\<close> is \<open>moveTo(p)\<close> followed by the segments and \<open>close()\<close>,
  \<open>Offset2D w d\<close> is \<open>w.offset2D(d, kind="arc")\<close>; \<open>Extrude w d\<close> is \<open>w.extrude(d)\<close>,
  \<open>Text c s size depth kw\<close> is \<open>Workplane("XY").center(c).text(s, size, depth, **kw)\<close>,
  \<open>Union a b\<close> is \<open>a.union(b)\<close>, \<open>Cut a b\<close> is \<open>a.cut(b)\<close> and \<open>Mirror a\<close> is
  \<open>a.mirror("YZ")\<close>.
\<close>

type_synonym point2 = "real \<times> real"

datatype segment = LineTo point2 | ThreePointArc point2 point2

datatype wire = Rect point2 real real | Path point2 "segment list" | Offset2D wire real

text \<open>The keyword arguments built by \<open>_text_kwargs_for_style\<close>; \<open>halign\<close> and \<open>valign\<close>
  are \<open>"center"\<close> in every call and are left out.\<close>

datatype text_kwargs =
  Kwargs (kw_font: "string option") (kw_fontPath: "string option") (kw_kind: "string option")

datatype solid =
    Extrude wire real
  | Text point2 string real real text_kwargs
  | Union solid solid
  | Cut solid solid
  | Mirror solid

text \<open>
  What the program cannot decide by itself is a parameter: \<open>find_font_path\<close> stands for
  \<open>_find_font_path\<close>, which reads the font directory of the host; \<open>text_raises\<close> and
  \<open>offset_raises\<close> say whether the kernel raises an exception in \<open>text(...)\<close> and in
  \<open>offset2D(...).extrude(...)\<close>, the two calls the program guards with \<open>try\<close>. The other
  kernel calls are taken to return.
\<close>

record cad =
  find_font_path :: "string \<Rightarrow> bool \<Rightarrow> bool \<Rightarrow> string option"
  text_raises :: "point2 \<Rightarrow> string \<Rightarrow> real \<Rightarrow> real \<Rightarrow> text_kwargs \<Rightarrow> bool"
  offset_raises :: "wire \<Rightarrow> real \<Rightarrow> bool"

section \<open>Outlines\<close>

text \<open>\<open>_create_concave_wire(w, h, r)\<close>\<close>

definition create_concave_wire :: "real \<Rightarrow> real \<Rightarrow> real \<Rightarrow> wire" where
  "create_concave_wire w h r0 =
     (let r = clamp_radius r0 w h
      in if r < 1 / 10 then Rect (0, 0) w h
      else
        let hw = w / 2; hh = h / 2;
            k = r * cos (pi / 4)
        in Path (- hw + r, - hh)
             [LineTo (hw - r, - hh),
              ThreePointArc (hw - k, - hh + k) (hw, - hh + r),
              LineTo (hw, hh - r),
              ThreePointArc (hw - k, hh - k) (hw - r, hh),
              LineTo (- hw + r, hh),
              ThreePointArc (- hw + k, hh - k) (- hw, hh - r),
              LineTo (- hw, - hh + r),
              ThreePointArc (- hw + k, - hh + k) (- hw + r, - hh)])"

text \<open>\<open>_create_rounded_wire(w, h, r)\<close>\<close>

definition create_rounded_wire :: "real \<Rightarrow> real \<Rightarrow> real \<Rightarrow> wire" where
  "create_rounded_wire w h r0 =
     (let r = clamp_radius r0 w h
      in if r < 1 / 10 then Rect (0, 0) w h
      else
        let hw = w / 2; hh = h / 2;
            a = r * (1 - cos (pi / 4))
        in Path (- hw + r, - hh)
             [LineTo (hw - r, - hh),
              ThreePointArc (hw - a, - hh + a) (hw, - hh + r),
              LineTo (hw, hh - r),
              ThreePointArc (hw - a, hh - a) (hw - r, hh),
              LineTo (- hw + r, hh),
              ThreePointArc (- hw + a, hh - a) (- hw, hh - r),
              LineTo (- hw, - hh + r),
              ThreePointArc (- hw + a, - hh + a) (- hw + r, - hh)])"

text \<open>\<open>_create_outline_wire(w, h, r, style)\<close>\<close>

definition create_outline_wire :: "real \<Rightarrow> real \<Rightarrow> real \<Rightarrow> string \<Rightarrow> wire" where
  "create_outline_wire w h r style =
     (if style = ''concave'' then create_concave_wire w h r
      else if style = ''rounded'' then create_rounded_wire w h r
      else Rect (0, 0) w h)"

text \<open>\<open>_create_outline_solid(w, h, r, style, depth)\<close>\<close>

definition create_outline_solid :: "real \<Rightarrow> real \<Rightarrow> real \<Rightarrow> string \<Rightarrow> real \<Rightarrow> solid" where
  "create_outline_solid w h r style depth = Extrude (create_outline_wire w h r style) depth"

section \<open>Border frame\<close>

text \<open>The \<open>except\<close> branch of \<open>_create_border_frame\<close>.\<close>

definition fallback_border :: "SignParams \<Rightarrow> solid option" where
  "fallback_border params =
     (let off = border_offset params; bw = border_width params;
          outer_w = width params - 2 * off;
          outer_h = height params - 2 * off;
          outer_r = max 0 (corner_radius params - off);
          inner_w = outer_w - 2 * bw;
          inner_h = outer_h - 2 * bw;
          inner_r = max 0 (outer_r - bw)
      in if outer_w \<le> 0 \<or> outer_h \<le> 0 then None
      else
        let outer_s = create_outline_solid outer_w outer_h outer_r (border_style params)
                        (text_depth params)
        in if inner_w \<le> 0 \<or> inner_h \<le> 0 then Some outer_s
        else
          let inner_s = create_outline_solid inner_w inner_h inner_r (border_style params)
                          (text_depth params)
          in Some (Cut outer_s inner_s))"

text \<open>\<open>_create_border_frame(params)\<close>: the \<open>try\<close> block builds \<open>wire1\<close>, offsets and
  extrudes it, then \<open>wire2\<close>; the first call that raises sends control to the
  \<open>except\<close> branch.\<close>

definition create_border_frame :: "cad \<Rightarrow> SignParams \<Rightarrow> solid option" where
  "create_border_frame K params =
     (if border_style params = ''none'' \<or> border_width params \<le> 0 then None
      else
        let off = border_offset params; bw = border_width params
        in if off \<le> 0 \<and> bw \<le> 0 then None
        else
          let wire1 = create_outline_wire (width params) (height params)
                        (corner_radius params) (border_style params)
          in if offset_raises K wire1 (- off) then fallback_border params
          else
            let outer_solid = Extrude (Offset2D wire1 (- off)) (text_depth params);
                wire2 = create_outline_wire (width params) (height params)
                          (corner_radius params) (border_style params)
            in if offset_raises K wire2 (- (off + bw)) then fallback_border params
            else
              let inner_solid = Extrude (Offset2D wire2 (- (off + bw))) (text_depth params)
              in Some (Cut outer_solid inner_solid))"

section \<open>Text solids\<close>

text \<open>\<open>_text_kwargs_for_style(font, bold, italic)\<close>; \<open>if fp\<close> is false for \<open>None\<close> and for
  the empty string.\<close>

definition text_kwargs_for_style :: "cad \<Rightarrow> string \<Rightarrow> bool \<Rightarrow> bool \<Rightarrow> text_kwargs" where
  "text_kwargs_for_style K fnt b it =
     (if b \<and> it then
        (case find_font_path K fnt True True of
           Some fp \<Rightarrow> if fp \<noteq> [] then Kwargs None (Some fp) None
                      else Kwargs (Some fnt) None (Some ''bold'')
         | None \<Rightarrow> Kwargs (Some fnt) None (Some ''bold''))
      else if b then Kwargs (Some fnt) None (Some ''bold'')
      else if it then Kwargs (Some fnt) None (Some ''italic'')
      else Kwargs (Some fnt) None (Some ''regular''))"

text \<open>A list comprehension whose elements may raise stops at the first exception.\<close>

fun collect :: "('e + 'a) list \<Rightarrow> 'e + 'a list" where
  "collect [] = Inr []"
| "collect (Inl e # _) = Inl e"
| "collect (Inr x # rest) = (case collect rest of Inl e \<Rightarrow> Inl e | Inr xs \<Rightarrow> Inr (x # xs))"

text \<open>\<open>[i for i, l in enumerate(line_texts) if l.strip()]\<close>\<close>

definition non_empty_indices :: "string list \<Rightarrow> nat list" where
  "non_empty_indices line_texts =
     filter (\<lambda>i. strip (line_texts ! i) \<noteq> []) [0 ..< length line_texts]"

text \<open>\<open>params.sizes if params.sizes and len(params.sizes) == len(line_texts)
  else auto_font_sizes(params)\<close>\<close>

definition choose_sizes :: "SignParams \<Rightarrow> py_error + real list" where
  "choose_sizes params =
     (case sizes params of
        Some szs \<Rightarrow>
          if szs \<noteq> [] \<and> length szs = length (get_line_texts params) then Inr szs
          else auto_font_sizes params
      | None \<Rightarrow> auto_font_sizes params)"

text \<open>\<open>sizes[i] if i < len(sizes) else sizes[-1]\<close>\<close>

definition size_at :: "real list \<Rightarrow> nat \<Rightarrow> py_error + real" where
  "size_at szs i =
     (if i < length szs then Inr (szs ! i)
      else if szs = [] then Inl IndexError
      else Inr (last szs))"

text \<open>The pairs (text, size) of the non-empty lines.\<close>

definition build_line_data :: "string list \<Rightarrow> real list \<Rightarrow> py_error + (string \<times> real) list" where
  "build_line_data line_texts szs =
     collect (map (\<lambda>i. case size_at szs i of
                          Inl e \<Rightarrow> Inl e
                        | Inr sz \<Rightarrow> Inr (strip (line_texts ! i), sz))
                (non_empty_indices line_texts))"

text \<open>\<open>UL_Y_OFFSET = 0.35\<close>\<close>

definition UL_Y_OFFSET :: real where
  "UL_Y_OFFSET = 35 / 100"

text \<open>A style group is \<open>[merged_text, bold, italic, [(run_text, underline), ...]]\<close>.\<close>

type_synonym style_group = "string \<times> bool \<times> bool \<times> (string \<times> bool) list"

text \<open>The loop \<open>for run in runs\<close> that merges consecutive runs of the same
  (bold, italic) pair.\<close>

fun merge_runs :: "style_group list \<Rightarrow> StyledRun list \<Rightarrow> style_group list" where
  "merge_runs groups [] = groups"
| "merge_runs groups (run # rest) =
     (if run_text run = [] then merge_runs groups rest
      else if groups \<noteq> [] \<and>
              (fst (snd (last groups)), fst (snd (snd (last groups)))) =
              (run_bold run, run_italic run)
      then
        (case last groups of (g_text, g_bold, g_italic, g_runs) \<Rightarrow>
           merge_runs
             (butlast groups @
                [(g_text @ run_text run, g_bold, g_italic,
                  g_runs @ [(run_text run, run_underline run)])])
             rest)
      else
        merge_runs
          (groups @ [(run_text run, run_bold run, run_italic run,
                      [(run_text run, run_underline run)])])
          rest)"

text \<open>The \<open>try\<close> around \<open>text(...)\<close>: a text that cannot be rendered is left out.\<close>

definition try_text :: "cad \<Rightarrow> point2 \<Rightarrow> string \<Rightarrow> real \<Rightarrow> real \<Rightarrow> text_kwargs \<Rightarrow> solid list" where
  "try_text K c s font_size depth kw =
     (if text_raises K c s font_size depth kw then [] else [Text c s font_size depth kw])"

text \<open>The loop \<open>for sub_text, sub_ul in g_runs\<close>, with \<open>char_x\<close> as accumulator.\<close>

fun underline_rects :: "real \<Rightarrow> real \<Rightarrow> real \<Rightarrow> real \<Rightarrow> (string \<times> bool) list \<Rightarrow> solid list" where
  "underline_rects font_size y depth char_x [] = []"
| "underline_rects font_size y depth char_x ((sub_text, sub_ul) # rest) =
     (let sub_w = real (length sub_text) * CHAR_WIDTH_RATIO * font_size
      in (if sub_ul then
            (let ul_thickness = max (4 / 10) (font_size * (6 / 100));
                 ul_y = y - font_size * UL_Y_OFFSET
             in [Extrude (Rect (char_x + sub_w / 2, ul_y) sub_w ul_thickness) depth])
          else [])
         @ underline_rects font_size y depth (char_x + sub_w) rest)"

text \<open>The loop \<open>for g_text, g_bold, g_italic, g_runs in groups\<close> of a line with several
  style groups, with \<open>x\<close> as accumulator.\<close>

fun group_solids :: "cad \<Rightarrow> SignParams \<Rightarrow> real \<Rightarrow> real \<Rightarrow> real \<Rightarrow> style_group list \<Rightarrow> solid list" where
  "group_solids K params font_size y x [] = []"
| "group_solids K params font_size y x ((g_text, g_bold, g_italic, g_runs) # rest) =
     (let g_w = real (length g_text) * CHAR_WIDTH_RATIO * font_size;
          g_cx = x + g_w / 2;
          kwargs = text_kwargs_for_style K (font params) g_bold g_italic
      in try_text K (g_cx, y) g_text font_size (text_depth params) kwargs
         @ underline_rects font_size y (text_depth params) x g_runs
         @ group_solids K params font_size y (x + g_w) rest)"

text \<open>The body of the loop \<open>for line_idx in non_empty_indices\<close> for one line of styled
  runs.\<close>

definition styled_line_solids :: "cad \<Rightarrow> SignParams \<Rightarrow> StyledRun list \<Rightarrow> real \<Rightarrow> real \<Rightarrow> solid list" where
  "styled_line_solids K params runs font_size y =
     (let groups = merge_runs [] runs
      in if groups = [] then []
      else if length groups = 1 then
        (case hd groups of (g_text, g_bold, g_italic, g_runs) \<Rightarrow>
           let kwargs = text_kwargs_for_style K (font params) g_bold g_italic;
               full_w = real (length g_text) * CHAR_WIDTH_RATIO * font_size
           in try_text K (0, y) g_text font_size (text_depth params) kwargs
              @ underline_rects font_size y (text_depth params) (- full_w / 2) g_runs)
      else
        let full_text = concat (map fst groups);
            total_w = real (length full_text) * CHAR_WIDTH_RATIO * font_size
        in group_solids K params font_size y (- total_w / 2) groups)"

text \<open>The body of the loop \<open>for i, (text, font_size) in enumerate(line_data)\<close> of the
  global styling.\<close>

definition global_line_solids :: "cad \<Rightarrow> SignParams \<Rightarrow> string \<Rightarrow> real \<Rightarrow> real \<Rightarrow> solid list" where
  "global_line_solids K params text font_size y =
     (let text_kwargs = text_kwargs_for_style K (font params) (bold params) (italic params)
      in try_text K (0, y) text font_size (text_depth params) text_kwargs
         @ (if underline params then
              (let text_w = font_size * real (length text) * CHAR_WIDTH_RATIO;
                   ul_thickness = max (4 / 10) (font_size * (6 / 100));
                   ul_y = y - font_size * UL_Y_OFFSET
               in [Extrude (Rect (0, ul_y) text_w ul_thickness) (text_depth params)])
            else []))"

text \<open>\<open>combined = solids[0]; for s in solids[1:]: combined = combined.union(s)\<close>\<close>

definition union_all :: "solid list \<Rightarrow> solid" where
  "union_all solids = foldl Union (hd solids) (tl solids)"

text \<open>\<open>_create_text_solids(params)\<close>. The lists \<open>line_data\<close> and \<open>y_positions\<close> are as
  long as \<open>non_empty_indices\<close>, and \<open>data_idx\<close> runs through their indices.\<close>

definition create_text_solids :: "cad \<Rightarrow> SignParams \<Rightarrow> py_error + solid option" where
  "create_text_solids K params =
     (let line_texts = get_line_texts params;
          nei = non_empty_indices line_texts
      in if nei = [] then Inr None
      else
        (case choose_sizes params of
           Inl e \<Rightarrow> Inl e
         | Inr szs \<Rightarrow>
            (case build_line_data line_texts szs of
               Inl e \<Rightarrow> Inl e
             | Inr line_data \<Rightarrow>
                let y_positions = calc_line_positions line_data (line_spacing params);
                    solids =
                      (case styled_lines params of
                         Some sl \<Rightarrow>
                           concat (map (\<lambda>data_idx.
                                     styled_line_solids K params (sl ! (nei ! data_idx))
                                       (snd (line_data ! data_idx)) (y_positions ! data_idx))
                                   [0 ..< length nei])
                       | None \<Rightarrow>
                           concat (map (\<lambda>i.
                                     global_line_solids K params (fst (line_data ! i))
                                       (snd (line_data ! i)) (y_positions ! i))
                                   [0 ..< length line_data]))
                in if solids = [] then Inr None else Inr (Some (union_all solids)))))"

section \<open>The two pieces\<close>

text \<open>\<open>generate_sign(params)\<close> returns the pair (black piece, white piece).\<close>

definition generate_sign :: "cad \<Rightarrow> SignParams \<Rightarrow> py_error + (solid option \<times> solid)" where
  "generate_sign K params =
     (let plate = create_outline_solid (width params) (height params) (corner_radius params)
                    (border_style params) (thickness params)
      in case create_text_solids K params of
           Inl e \<Rightarrow> Inl e
         | Inr text_solids \<Rightarrow>
            let border = create_border_frame K params;
                black_parts =
                  (case text_solids of Some t \<Rightarrow> [t] | None \<Rightarrow> [])
                  @ (case border of Some b \<Rightarrow> [b] | None \<Rightarrow> [])
            in if black_parts = [] then Inr (None, plate)
            else
              let black_combined = union_all black_parts;
                  black_piece = Mirror black_combined;
                  white_piece = Cut plate black_piece
              in Inr (Some black_piece, white_piece))"

section \<open>The point sets of the solids\<close>

text \<open>
  To speak about union and intersection of the two pieces, a solid is read as the set of
  its points. The kernel's boolean operations are the set operations, \<open>mirror("YZ")\<close>
  negates the x coordinate, a rectangle is the axis-aligned box around its centre, and
  an extrusion by \<open>d\<close> spans the heights between \<open>0\<close> and \<open>d\<close>. The regions enclosed by a
  path with arcs and by an offset outline, and the body of a rendered text, are those
  the kernel computes; they are parameters of the reading.
\<close>

type_synonym point3 = "real \<times> real \<times> real"

record shapes =
  path_region :: "point2 \<Rightarrow> segment list \<Rightarrow> point2 set"
  offset_region :: "wire \<Rightarrow> real \<Rightarrow> point2 set"
  text_body :: "point2 \<Rightarrow> string \<Rightarrow> real \<Rightarrow> real \<Rightarrow> text_kwargs \<Rightarrow> point3 set"

fun region :: "shapes \<Rightarrow> wire \<Rightarrow> point2 set" where
  "region G (Rect c w h) =
     {p. \<bar>fst p - fst c\<bar> \<le> w / 2 \<and> \<bar>snd p - snd c\<bar> \<le> h / 2}"
| "region G (Path p0 segs) = path_region G p0 segs"
| "region G (Offset2D w d) = offset_region G w d"

definition mirror_YZ :: "point3 \<Rightarrow> point3" where
  "mirror_YZ p = (- fst p, snd p)"

fun points :: "shapes \<Rightarrow> solid \<Rightarrow> point3 set" where
  "points G (Extrude w d) =
     {p. (fst p, fst (snd p)) \<in> region G w \<and> min 0 d \<le> snd (snd p) \<and> snd (snd p) \<le> max 0 d}"
| "points G (Text c s font_size depth kw) = text_body G c s font_size depth kw"
| "points G (Union a b) = points G a \<union> points G b"
| "points G (Cut a b) = points G a - points G b"
| "points G (Mirror a) = mirror_YZ ` points G a"

text \<open>The full plate of a configuration, as \<open>generate_sign\<close> builds it.\<close>

definition full_plate :: "SignParams \<Rightarrow> solid" where
  "full_plate params =
     create_outline_solid (width params) (height params) (corner_radius params)
       (border_style params) (thickness params)"

section \<open>The preview's offset outline\<close>

text \<open>
  A \<open>QPainterPath\<close> is modelled by the list of the elements added to it:
  \<open>moveTo\<close>, \<open>lineTo\<close>, \<open>addRect(QRectF(x, y, w, h))\<close> and \<open>closeSubpath\<close>.
\<close>

datatype path_element =
    PMoveTo point2
  | PLineTo point2
  | PAddRect real real real real
  | PCloseSubpath

text \<open>\<open>math.atan2(y, x)\<close>, with values in \<open>(-pi, pi]\<close>.\<close>

definition atan2 :: "real \<Rightarrow> real \<Rightarrow> real" where
  "atan2 y x =
     (if 0 < x then arctan (y / x)
      else if x < 0 then (if 0 \<le> y then arctan (y / x) + pi else arctan (y / x) - pi)
      else if 0 < y then pi / 2
      else if y < 0 then - (pi / 2)
      else 0)"

text \<open>\<open>_add_offset_arc(path, cx, cy, R, x1, y1, x2, y2, n_seg)\<close>: the elements it adds.\<close>

definition add_offset_arc ::
  "real \<Rightarrow> real \<Rightarrow> real \<Rightarrow> real \<Rightarrow> real \<Rightarrow> real \<Rightarrow> real \<Rightarrow> nat \<Rightarrow> path_element list" where
  "add_offset_arc cx cy R x1 y1 x2 y2 n_seg =
     (let a1 = atan2 (y1 - cy) (x1 - cx);
          a2 = atan2 (y2 - cy) (x2 - cx);
          delta0 = a2 - a1;
          delta = (if delta0 > 0 then delta0 - 2 * pi else delta0)
      in map (\<lambda>i. let t = real i / real n_seg;
                       a = a1 + delta * t
                   in PLineTo (cx + R * cos a, cy + R * sin a))
           [1 ..< n_seg + 1])"

text \<open>\<open>addRect(QRectF(-(hw - d), -(hh - d), 2 * (hw - d), 2 * (hh - d)))\<close>, the inset
  rectangle that \<open>_build_offset_concave_path\<close> adds in three places.\<close>

definition inset_rect :: "real \<Rightarrow> real \<Rightarrow> real \<Rightarrow> path_element" where
  "inset_rect hw hh d = PAddRect (- (hw - d)) (- (hh - d)) (2 * (hw - d)) (2 * (hh - d))"

text \<open>\<open>math.sqrt(x)\<close> raises \<open>ValueError\<close> for a negative argument.\<close>

definition py_sqrt :: "real \<Rightarrow> py_error + real" where
  "py_sqrt x = (if x < 0 then Inl ValueError else Inr (sqrt x))"

text \<open>\<open>_build_offset_concave_path(hw, hh, r, d, n_arc=16)\<close>\<close>

definition build_offset_concave_path ::
  "real \<Rightarrow> real \<Rightarrow> real \<Rightarrow> real \<Rightarrow> nat \<Rightarrow> py_error + path_element list" where
  "build_offset_concave_path hw hh r d n_arc =
     (let R = r + d
      in if hw \<le> d \<or> hh \<le> d \<or> R \<le> 0 then
           (if hw > d \<and> hh > d then Inr [inset_rect hw hh d] else Inr [])
      else if d \<ge> R then Inr [inset_rect hw hh d]
      else
        (case py_sqrt (R * R - d * d) of
           Inl e \<Rightarrow> Inl e
         | Inr s \<Rightarrow>
            if hw \<le> s \<or> hh \<le> s then Inr [inset_rect hw hh d]
            else
              Inr ([PMoveTo (- hw + s, - hh + d), PLineTo (hw - s, - hh + d)]
                @ add_offset_arc hw (- hh) R (hw - s) (- hh + d) (hw - d) (- hh + s) n_arc
                @ [PLineTo (hw - d, hh - s)]
                @ add_offset_arc hw hh R (hw - d) (hh - s) (hw - s) (hh - d) n_arc
                @ [PLineTo (- hw + s, hh - d)]
                @ add_offset_arc (- hw) hh R (- hw + s) (hh - d) (- hw + d) (hh - s) n_arc
                @ [PLineTo (- hw + d, - hh + s)]
                @ add_offset_arc (- hw) (- hh) R (- hw + d) (- hh + s) (- hw + s) (- hh + d)
                    n_arc
                @ [PCloseSubpath])))"

text \<open>The choice of the font sizes in \<open>PreviewWidget.paintEvent\<close>:
  \<open>p.sizes if p.sizes and len(p.sizes) == len(p.lines) else auto_font_sizes(p)\<close>\<close>

definition preview_sizes :: "SignParams \<Rightarrow> py_error + real list" where
  "preview_sizes p =
     (case sizes p of
        Some szs \<Rightarrow>
          if szs \<noteq> [] \<and> length szs = length (lines p) then Inr szs
          else auto_font_sizes p
      | None \<Rightarrow> auto_font_sizes p)"

section \<open>Specification predicates and example configurations\<close>

text \<open>The centres below the first one: each is the one above it minus the gap.\<close>

fun tail_positions :: "real \<Rightarrow> real list \<Rightarrow> real list" where
  "tail_positions y [] = []"
| "tail_positions y (g # gs) = (y - g) # tail_positions (y - g) gs"

text \<open>
  The two conditions of the specification on a uniform font size \<open>v\<close>, in its words:
  the stack of the \<open>n\<close> non-empty lines, spaced at \<open>v * lineSpacing\<close> between centres
  (half a line above the first centre and half a line below the last), fits the
  available height; every non-empty line's estimated width, character count times
  the width ratio times \<open>v\<close>, fits the available width.
\<close>

definition stack_fits :: "SignParams \<Rightarrow> real \<Rightarrow> bool" where
  "stack_fits p v =
     (let n = length (filter (\<lambda>l. strip l \<noteq> []) (get_line_texts p))
      in v + (real n - 1) * (v * line_spacing p) \<le> height p - 2 * padding p)"

definition widths_fit :: "SignParams \<Rightarrow> real \<Rightarrow> bool" where
  "widths_fit p v =
     (\<forall>l \<in> set (get_line_texts p).
        strip l \<noteq> [] \<longrightarrow>
        real (length (strip l)) * CHAR_WIDTH_RATIO * v \<le> width p - 2 * padding p)"

text \<open>The default configuration with the two lines \<open>a\<close> and \<open>b\<close>: the padding is
  6 + 2 + 3 = 11, the available space 158 by 98.\<close>

definition two_short_lines :: SignParams where
  "two_short_lines = default_params \<lparr> lines := [''a'', ''b''] \<rparr>"

text \<open>
  The dimension-based offset of the specification, in its words: shrink width and
  height by twice the distance and reduce the corner radius by the distance, floored
  at zero. An outline is given by its width, height and corner radius.
\<close>

definition dimension_offset :: "real \<times> real \<times> real \<Rightarrow> real \<Rightarrow> real \<times> real \<times> real" where
  "dimension_offset whr d =
     (case whr of (w, h, r) \<Rightarrow> (w - 2 * d, h - 2 * d, max 0 (r - d)))"

definition outline_of :: "real \<times> real \<times> real \<Rightarrow> string \<Rightarrow> real \<Rightarrow> solid" where
  "outline_of whr style depth =
     (case whr of (w, h, r) \<Rightarrow> create_outline_solid w h r style depth)"

text \<open>Two kernels for the examples: one on which no call raises and no font file
  is found, and one on which every \<open>offset2D\<close> raises.\<close>

definition plain_kernel :: cad where
  "plain_kernel =
     \<lparr> find_font_path = (\<lambda>_ _ _. None),
       text_raises = (\<lambda>_ _ _ _ _. False),
       offset_raises = (\<lambda>_ _. False) \<rparr>"

definition failing_offsets :: cad where
  "failing_offsets = plain_kernel \<lparr> offset_raises := (\<lambda>_ _. True) \<rparr>"

text \<open>A sign without text and without border: an empty line, a line of two spaces,
  border style \<open>none\<close>.\<close>

definition blank_sign :: SignParams where
  "blank_sign = default_params \<lparr> lines := [[], ''  ''], border_style := ''none'' \<rparr>"

text \<open>The Euclidean length of the segment between two points.\<close>

definition segment_length :: "point2 \<Rightarrow> point2 \<Rightarrow> real" where
  "segment_length p q = sqrt ((fst q - fst p)\<^sup>2 + (snd q - snd p)\<^sup>2)"

text \<open>
  A reading of the shapes for the examples, which contain neither paths nor offsets:
  the body of a text is the box of its estimated width, its font size and its depth
  around its centre.
\<close>

definition sample_shapes :: shapes where
  "sample_shapes =
     \<lparr> path_region = (\<lambda>_ _. {}),
       offset_region = (\<lambda>_ _. {}),
       text_body = (\<lambda>c s font_size depth kw.
          {p. \<bar>fst p - fst c\<bar> \<le> real (length s) * CHAR_WIDTH_RATIO * font_size / 2 \<and>
              \<bar>fst (snd p) - snd c\<bar> \<le> font_size / 2 \<and>
              0 \<le> snd (snd p) \<and> snd (snd p) \<le> depth}) \<rparr>"

text \<open>The underlined line \<open>A\<close> on a plate without border, with the automatic size 108
  and with the explicit size 1000.\<close>

definition underlined_A :: SignParams where
  "underlined_A =
     default_params \<lparr> lines := [''A''], underline := True, border_style := ''none'' \<rparr>"

definition oversized_A :: SignParams where
  "oversized_A = underlined_A \<lparr> sizes := Some [1000] \<rparr>"

text \<open>The black pieces of these two signs: the mirrored union of the text and its
  underline.\<close>

definition black_underlined_A :: solid where
  "black_underlined_A =
     Mirror (Union (Text (0, 0) ''A'' 108 (6 / 10) (Kwargs (Some ''Arial'') None (Some ''regular'')))
                   (Extrude (Rect (0, - 378 / 10) (594 / 10) (648 / 100)) (6 / 10)))"

definition black_oversized_A :: solid where
  "black_oversized_A =
     Mirror (Union (Text (0, 0) ''A'' 1000 (6 / 10) (Kwargs (Some ''Arial'') None (Some ''regular'')))
                   (Extrude (Rect (0, - 350) 550 60) (6 / 10)))"

section \<open>Properties of the line layout\<close>

lemma foldl_positions:
  "ys \<noteq> [] \<Longrightarrow>
   foldl (\<lambda>y_positions gap. y_positions @ [last y_positions - gap]) ys gs
     = ys @ tail_positions (last ys) gs"
  by (induction gs arbitrary: ys) auto

lemma last_tail_positions: "last (y # tail_positions y gs) = y - sum_list gs"
  by (induction gs arbitrary: y) auto

lemma length_tail_positions: "length (tail_positions y gs) = length gs"
  by (induction gs arbitrary: y) auto

lemma sum_tail_positions:
  "\<forall>g \<in> set gs. g = g0 \<Longrightarrow>
   sum_list (tail_positions y gs)
     = real (length gs) * y - g0 * (real (length gs) * (real (length gs) + 1) / 2)"
proof (induction gs arbitrary: y)
  case Nil
  then show ?case by simp
next
  case (Cons g gs)
  have g: "g = g0" using Cons.prems by simp
  have "sum_list (tail_positions (y - g0) gs)
      = real (length gs) * (y - g0) - g0 * (real (length gs) * (real (length gs) + 1) / 2)"
    using Cons.prems by (intro Cons.IH) simp
  then have "sum_list (tail_positions y (g # gs))
      = (y - g0) + (real (length gs) * (y - g0)
          - g0 * (real (length gs) * (real (length gs) + 1) / 2))"
    by (simp add: g)
  also have "\<dots> = real (length (g # gs)) * y
      - g0 * (real (length (g # gs)) * (real (length (g # gs)) + 1) / 2)"
    by (simp add: field_simps)
  finally show ?case .
qed

lemma sum_list_equal_gaps:
  "\<forall>g \<in> set gs. g = g0 \<Longrightarrow> sum_list gs = real (length gs) * g0"
  by (induction gs) (auto simp: algebra_simps)

lemma calc_line_positions_unfold:
  "2 \<le> length ld \<Longrightarrow>
   calc_line_positions ld ls =
     (sum_list (line_gaps ld ls) / 2)
       # tail_positions (sum_list (line_gaps ld ls) / 2) (line_gaps ld ls)"
  by (auto simp add: calc_line_positions_def Let_def foldl_positions)

lemma length_line_gaps: "length (line_gaps ld ls) = length ld - 1"
  by (simp add: line_gaps_def)

lemma length_calc_line_positions: "length (calc_line_positions ld ls) = length ld"
proof -
  consider "length ld = 0" | "length ld = 1" | "2 \<le> length ld" by linarith
  then show ?thesis
  proof cases
    case 3
    then show ?thesis
      by (simp add: calc_line_positions_unfold length_tail_positions length_line_gaps)
  qed (simp_all add: calc_line_positions_def)
qed

text \<open>Lines of one font size are a case of equal gaps.\<close>

lemma uniform_sizes_equal_gaps:
  assumes "\<forall>p \<in> set ld. snd p = sz"
  shows "\<forall>g \<in> set (line_gaps ld ls). g = sz * ls"
proof
  fix g assume "g \<in> set (line_gaps ld ls)"
  then obtain i where i: "i < length ld - 1"
    and g: "g = (snd (ld ! i) / 2 + snd (ld ! (i + 1)) / 2) * ls"
    by (auto simp: line_gaps_def)
  from i have "ld ! i \<in> set ld" "ld ! (i + 1) \<in> set ld" by simp_all
  with assms have "snd (ld ! i) = sz" "snd (ld ! (i + 1)) = sz" by blast+
  with g show "g = sz * ls" by simp
qed

text \<open>
  C3, as the code has it. A single line is centred at exactly 0. For any sizes the
  stack is centred in the sense that the first and the last centre are opposite.
  The centres sum to 0 when the gaps between consecutive centres are all equal, which
  is the case for a uniform font size and for at most two lines; for unequal gaps the
  sum is not 0 in general.
\<close>

theorem calc_line_positions_centred:
  "calc_line_positions [(t, sz)] ls = [0] \<and>
   (ld \<noteq> [] \<longrightarrow>
      hd (calc_line_positions ld ls) + last (calc_line_positions ld ls) = 0) \<and>
   ((\<forall>g \<in> set (line_gaps ld ls). g = g0) \<longrightarrow>
      sum_list (calc_line_positions ld ls) = 0)"
proof -
  have one: "calc_line_positions [(t, sz)] ls = [0]"
    by (simp add: calc_line_positions_def)
  consider "length ld = 0" | "length ld = 1" | "2 \<le> length ld" by linarith
  then have "(ld \<noteq> [] \<longrightarrow>
      hd (calc_line_positions ld ls) + last (calc_line_positions ld ls) = 0) \<and>
   ((\<forall>g \<in> set (line_gaps ld ls). g = g0) \<longrightarrow>
      sum_list (calc_line_positions ld ls) = 0)"
  proof cases
    case 1 then show ?thesis by (simp add: calc_line_positions_def)
  next
    case 2 then show ?thesis by (simp add: calc_line_positions_def)
  next
    case 3
    let ?gs = "line_gaps ld ls"
    let ?T = "sum_list ?gs"
    have u: "calc_line_positions ld ls = (?T / 2) # tail_positions (?T / 2) ?gs"
      using 3 by (rule calc_line_positions_unfold)
    have b: "hd (calc_line_positions ld ls) + last (calc_line_positions ld ls) = 0"
      unfolding u last_tail_positions by simp
    have c: "sum_list (calc_line_positions ld ls) = 0" if "\<forall>g \<in> set ?gs. g = g0"
    proof -
      define m where "m = real (length ?gs)"
      have T: "?T = m * g0" unfolding m_def using that by (rule sum_list_equal_gaps)
      have "sum_list (tail_positions (?T / 2) ?gs) = m * (?T / 2) - g0 * (m * (m + 1) / 2)"
        unfolding m_def using that by (rule sum_tail_positions)
      then have "sum_list (calc_line_positions ld ls)
                   = ?T / 2 + (m * (?T / 2) - g0 * (m * (m + 1) / 2))"
        by (simp add: u)
      also have "\<dots> = 0" unfolding T by (simp add: algebra_simps)
      finally show ?thesis .
    qed
    from b c show ?thesis by blast
  qed
  with one show ?thesis by blast
qed

text \<open>Three lines of size 10 at the default spacing 1.3: the gaps are all 13, the
  centres are 13, 0 and -13.\<close>

theorem calc_line_positions_centred_witness:
  "[(''Her'', 10), (''bor'', 10), (''Ola'', 10 :: real)] \<noteq> [] \<and>
   line_gaps [(''Her'', 10), (''bor'', 10), (''Ola'', 10)] (13 / 10) = [13, 13] \<and>
   hd (calc_line_positions [(''Her'', 10), (''bor'', 10), (''Ola'', 10)] (13 / 10))
     + last (calc_line_positions [(''Her'', 10), (''bor'', 10), (''Ola'', 10)] (13 / 10)) = 0 \<and>
   sum_list (calc_line_positions [(''Her'', 10), (''bor'', 10), (''Ola'', 10)] (13 / 10)) = 0 \<and>
   calc_line_positions [(''Her'', 10), (''bor'', 10), (''Ola'', 10)] (13 / 10) = [13, 0, - 13]"
proof -
  have g: "line_gaps [(''Her'', 10), (''bor'', 10), (''Ola'', 10)] (13 / 10) = [13, 13]"
    by (simp add: line_gaps_def upt_rec [of 0] upt_rec [of 1] upt_rec [of 2])
  have v: "calc_line_positions [(''Her'', 10), (''bor'', 10), (''Ola'', 10)] (13 / 10)
             = [13, 0, - 13]"
    by (simp add: calc_line_positions_def g)
  show ?thesis
    using calc_line_positions_centred
            [of "''x''" 10 "13 / 10" "[(''Her'', 10), (''bor'', 10), (''Ola'', 10)]" 13]
    by (simp add: g v)
qed

text \<open>C3 as the specification states it fails: with the sizes 10, 20 and 40 at
  spacing 1 the gaps are 15 and 30, the centres 22.5, 7.5 and -22.5, and their sum
  is 7.5.\<close>

theorem calc_line_positions_sum_counterexample:
  "sum_list (calc_line_positions [(''a'', 10), (''b'', 20), (''c'', 40)] 1) = 15 / 2 \<and>
   sum_list (calc_line_positions [(''a'', 10), (''b'', 20), (''c'', 40)] 1) \<noteq> 0"
  by (simp add: calc_line_positions_def line_gaps_def Let_def
        upt_rec [of 0] upt_rec [of 1] upt_rec [of 2])

section \<open>Properties of the corner radius\<close>

text \<open>
  C7, as the code has it. The effective radius is \<open>max(0, min(r, w/2 - 0.1, h/2 - 0.1))\<close>:
  it is never negative; it does not exceed \<open>min(r, w/2 - 0.1, h/2 - 0.1)\<close> when that
  minimum is not negative, and is 0 when it is negative. When the effective radius
  is below 0.1 the concave and the rounded outline are the plain rectangle. For
  width 40, height 20 and radius 100 the effective radius is 9.9.
\<close>

theorem clamp_radius_bounds:
  "0 \<le> clamp_radius r w h \<and>
   (0 \<le> min r (min (w / 2 - 1 / 10) (h / 2 - 1 / 10)) \<longrightarrow>
      clamp_radius r w h \<le> min r (min (w / 2 - 1 / 10) (h / 2 - 1 / 10))) \<and>
   (min r (min (w / 2 - 1 / 10) (h / 2 - 1 / 10)) < 0 \<longrightarrow> clamp_radius r w h = 0) \<and>
   (clamp_radius r w h < 1 / 10 \<longrightarrow>
      create_concave_wire w h r = Rect (0, 0) w h \<and>
      create_rounded_wire w h r = Rect (0, 0) w h) \<and>
   clamp_radius 100 40 20 = 99 / 10 \<and>
   clamp_radius 100 40 20 \<le> min (20 - 1 / 10) (10 - 1 / 10)"
  by (simp add: clamp_radius_def create_concave_wire_def create_rounded_wire_def)

text \<open>Width 40, height 20: the radius 100 is clamped to 9.9; the radius 0.05 stays
  below the threshold and gives the rectangle; the radius -1 is raised to 0.\<close>

theorem clamp_radius_bounds_witness:
  "0 \<le> min (100 :: real) (min (40 / 2 - 1 / 10) (20 / 2 - 1 / 10)) \<and>
   clamp_radius 100 40 20 \<le> min 100 (min (40 / 2 - 1 / 10) (20 / 2 - 1 / 10)) \<and>
   clamp_radius (5 / 100) 40 20 < 1 / 10 \<and>
   create_concave_wire 40 20 (5 / 100) = Rect (0, 0) 40 20 \<and>
   create_rounded_wire 40 20 (5 / 100) = Rect (0, 0) 40 20 \<and>
   min (- 1 :: real) (min (40 / 2 - 1 / 10) (20 / 2 - 1 / 10)) < 0 \<and>
   clamp_radius (- 1) 40 20 = 0"
  using clamp_radius_bounds [of 100 40 20] clamp_radius_bounds [of "5 / 100" 40 20]
    clamp_radius_bounds [of "- 1" 40 20]
  by (simp add: clamp_radius_def)

text \<open>C7 as the specification states it fails for a negative requested radius: the
  effective radius 0 exceeds \<open>min(r, w/2 - 0.1, h/2 - 0.1) = -1\<close>.\<close>

theorem clamp_radius_counterexample:
  "clamp_radius (- 1) 40 20 = 0 \<and>
   \<not> clamp_radius (- 1) 40 20 \<le> min (- 1) (min (40 / 2 - 1 / 10) (20 / 2 - 1 / 10))"
  by (simp add: clamp_radius_def)

section \<open>Properties of the automatic font size\<close>

lemma cap_by_width_le: "cap_by_width aw u ls \<le> u"
proof (induction ls arbitrary: u)
  case Nil
  then show ?case by simp
next
  case (Cons a ls)
  show ?case
  proof (cases "strip a = []")
    case True
    then show ?thesis using Cons.IH by simp
  next
    case False
    let ?c = "aw / (real (length (strip a)) * CHAR_WIDTH_RATIO)"
    have "cap_by_width aw (min u ?c) ls \<le> min u ?c" by (rule Cons.IH)
    also have "\<dots> \<le> u" by simp
    finally show ?thesis using False by (simp add: Let_def)
  qed
qed

lemma cap_by_width_mono: "u \<le> u' \<Longrightarrow> cap_by_width aw u ls \<le> cap_by_width aw u' ls"
proof (induction ls arbitrary: u u')
  case Nil
  then show ?case by simp
next
  case (Cons l ls)
  show ?case
  proof (cases "strip l = []")
    case True
    then show ?thesis using Cons by simp
  next
    case False
    have "min u (aw / (real (length (strip l)) * CHAR_WIDTH_RATIO))
        \<le> min u' (aw / (real (length (strip l)) * CHAR_WIDTH_RATIO))"
      using Cons.prems by simp
    then show ?thesis using False Cons.IH by (simp add: Let_def)
  qed
qed

lemma cap_by_width_le_line:
  "l \<in> set ls \<Longrightarrow> strip l \<noteq> [] \<Longrightarrow>
   cap_by_width aw u ls \<le> aw / (real (length (strip l)) * CHAR_WIDTH_RATIO)"
proof (induction ls arbitrary: u)
  case Nil
  then show ?case by simp
next
  case (Cons a ls)
  show ?case
  proof (cases "l = a")
    case True
    have "cap_by_width aw u (a # ls)
        = cap_by_width aw (min u (aw / (real (length (strip l)) * CHAR_WIDTH_RATIO))) ls"
      using True Cons.prems by (simp add: Let_def)
    also have "\<dots> \<le> min u (aw / (real (length (strip l)) * CHAR_WIDTH_RATIO))"
      by (rule cap_by_width_le)
    finally show ?thesis by simp
  next
    case False
    then have "l \<in> set ls" using Cons.prems by simp
    then show ?thesis using Cons.IH Cons.prems by (simp add: Let_def)
  qed
qed

text \<open>The loop returns its start value or the cap of one of the non-empty lines.\<close>

lemma cap_by_width_attained:
  "cap_by_width aw u ls = u \<or>
   (\<exists>l \<in> set ls. strip l \<noteq> [] \<and>
      cap_by_width aw u ls = aw / (real (length (strip l)) * CHAR_WIDTH_RATIO))"
proof (induction ls arbitrary: u)
  case Nil
  then show ?case by simp
next
  case (Cons a ls)
  show ?case
  proof (cases "strip a = []")
    case True
    then show ?thesis using Cons.IH [of u] by auto
  next
    case False
    let ?c = "aw / (real (length (strip a)) * CHAR_WIDTH_RATIO)"
    have e: "cap_by_width aw u (a # ls) = cap_by_width aw (min u ?c) ls"
      using False by (simp add: Let_def)
    from Cons.IH [of "min u ?c"] show ?thesis
    proof
      assume h: "cap_by_width aw (min u ?c) ls = min u ?c"
      show ?thesis
      proof (cases "u \<le> ?c")
        case True
        then show ?thesis using e h by (simp add: min_def)
      next
        case False
        then have "cap_by_width aw u (a # ls) = ?c" using e h by (simp add: min_def)
        then show ?thesis using \<open>strip a \<noteq> []\<close> by auto
      qed
    next
      assume "\<exists>l\<in>set ls. strip l \<noteq> [] \<and>
        cap_by_width aw (min u ?c) ls = aw / (real (length (strip l)) * CHAR_WIDTH_RATIO)"
      then show ?thesis using e by auto
    qed
  qed
qed

lemma char_width_pos: "0 < CHAR_WIDTH_RATIO"
  by (simp add: CHAR_WIDTH_RATIO_def)

lemma auto_font_sizes_main:
  assumes ne: "filter (\<lambda>l. strip l \<noteq> []) (get_line_texts p) \<noteq> []"
    and aw: "0 < width p - 2 * padding p" and ah: "0 < height p - 2 * padding p"
    and D: "1 + (real (length (filter (\<lambda>l. strip l \<noteq> []) (get_line_texts p))) - 1)
                * line_spacing p \<noteq> 0"
  shows "auto_font_sizes p =
     Inr (replicate (length (get_line_texts p))
        (cap_by_width (width p - 2 * padding p)
           ((height p - 2 * padding p) /
              (1 + (real (length (filter (\<lambda>l. strip l \<noteq> []) (get_line_texts p))) - 1)
                    * line_spacing p))
           (get_line_texts p)))"
proof -
  from ne have "get_line_texts p \<noteq> []" by auto
  with assms show ?thesis
    by (simp add: auto_font_sizes_def Let_def)
qed

lemma line_spacing_irrelevant:
  "get_line_texts (p\<lparr>line_spacing := s\<rparr>) = get_line_texts p"
  "padding (p\<lparr>line_spacing := s\<rparr>) = padding p"
  by (simp_all add: get_line_texts_def padding_def split: option.split)

lemma sizes_irrelevant:
  "get_line_texts (p\<lparr>sizes := z\<rparr>) = get_line_texts p"
  "padding (p\<lparr>sizes := z\<rparr>) = padding p"
  by (simp_all add: get_line_texts_def padding_def split: option.split)

lemma auto_font_sizes_ignores_sizes:
  "auto_font_sizes (p\<lparr>sizes := z\<rparr>) = auto_font_sizes p"
  by (simp add: auto_font_sizes_def sizes_irrelevant Let_def cong: if_cong)

lemma strip_samples:
  "strip ''a'' = ''a''" "strip ''b'' = ''b''" "strip ''A'' = ''A''"
  "strip ''Her bor'' = ''Her bor''" "strip ''Ola Nordmann'' = ''Ola Nordmann''"
  "strip [] = []" "strip ''  '' = []"
  by (simp_all add: strip_def py_isspace_def)

text \<open>
  C4, as the code has it. With at least one non-empty line, positive available width
  and height, and a positive divisor \<open>1 + (n - 1) * lineSpacing\<close> (\<open>n\<close> the number of
  non-empty lines; any non-negative line spacing gives one), auto-sizing returns one
  size \<open>u\<close> for every line, \<open>u\<close> satisfies both conditions, and every size that
  satisfies both is at most \<open>u\<close>.
\<close>

theorem auto_font_sizes_largest_fit:
  assumes ne: "filter (\<lambda>l. strip l \<noteq> []) (get_line_texts p) \<noteq> []"
    and aw: "0 < width p - 2 * padding p" and ah: "0 < height p - 2 * padding p"
    and D: "0 < 1 + (real (length (filter (\<lambda>l. strip l \<noteq> []) (get_line_texts p))) - 1)
                * line_spacing p"
  shows "\<exists>u. auto_font_sizes p = Inr (replicate (length (get_line_texts p)) u) \<and>
             stack_fits p u \<and> widths_fit p u \<and>
             (\<forall>v. stack_fits p v \<and> widths_fit p v \<longrightarrow> v \<le> u)"
proof -
  let ?lt = "get_line_texts p"
  let ?aw = "width p - 2 * padding p"
  let ?ah = "height p - 2 * padding p"
  let ?D = "1 + (real (length (filter (\<lambda>l. strip l \<noteq> []) ?lt)) - 1) * line_spacing p"
  let ?u = "cap_by_width ?aw (?ah / ?D) ?lt"
  have r: "auto_font_sizes p = Inr (replicate (length ?lt) ?u)"
    using auto_font_sizes_main [OF ne aw ah] D by simp
  have sf: "stack_fits p v \<longleftrightarrow> v \<le> ?ah / ?D" for v
  proof -
    have "stack_fits p v \<longleftrightarrow> v * ?D \<le> ?ah"
      by (simp add: stack_fits_def Let_def algebra_simps)
    also have "\<dots> \<longleftrightarrow> v \<le> ?ah / ?D" using D by (simp add: pos_le_divide_eq)
    finally show ?thesis .
  qed
  have wf: "widths_fit p v \<longleftrightarrow>
      (\<forall>l \<in> set ?lt. strip l \<noteq> [] \<longrightarrow>
         v \<le> ?aw / (real (length (strip l)) * CHAR_WIDTH_RATIO))" for v
  proof -
    have "real (length (strip l)) * CHAR_WIDTH_RATIO * v \<le> ?aw \<longleftrightarrow>
          v \<le> ?aw / (real (length (strip l)) * CHAR_WIDTH_RATIO)" if "strip l \<noteq> []" for l
    proof -
      have "0 < real (length (strip l)) * CHAR_WIDTH_RATIO"
        using that char_width_pos by simp
      then show ?thesis by (simp add: pos_le_divide_eq mult.commute)
    qed
    then show ?thesis unfolding widths_fit_def by blast
  qed
  have 1: "stack_fits p ?u" unfolding sf by (rule cap_by_width_le)
  have 2: "widths_fit p ?u" unfolding wf using cap_by_width_le_line by blast
  have 3: "v \<le> ?u" if "stack_fits p v \<and> widths_fit p v" for v
    using cap_by_width_attained [of ?aw "?ah / ?D" ?lt] that unfolding sf wf by auto
  from r 1 2 3 show ?thesis by blast
qed

text \<open>The default configuration: two non-empty lines, 158 by 98 available, divisor
  2.3; the size is 158 / (12 * 0.55) = 790/33, the cap of the longer line.\<close>

theorem auto_font_sizes_largest_fit_witness:
  "filter (\<lambda>l. strip l \<noteq> []) (get_line_texts default_params) = [''Her bor'', ''Ola Nordmann''] \<and>
   width default_params - 2 * padding default_params = 158 \<and>
   height default_params - 2 * padding default_params = 98 \<and>
   1 + (real (length (filter (\<lambda>l. strip l \<noteq> []) (get_line_texts default_params))) - 1)
         * line_spacing default_params = 23 / 10 \<and>
   auto_font_sizes default_params = Inr [790 / 33, 790 / 33] \<and>
   (\<exists>u. auto_font_sizes default_params
           = Inr (replicate (length (get_line_texts default_params)) u) \<and>
        stack_fits default_params u \<and> widths_fit default_params u \<and>
        (\<forall>v. stack_fits default_params v \<and> widths_fit default_params v \<longrightarrow> v \<le> u))"
proof -
  have lt: "get_line_texts default_params = [''Her bor'', ''Ola Nordmann'']"
    by (simp add: get_line_texts_def default_params_def)
  have ne: "filter (\<lambda>l. strip l \<noteq> []) (get_line_texts default_params)
              = [''Her bor'', ''Ola Nordmann'']"
    by (simp add: lt strip_samples)
  have pad: "padding default_params = 11"
    by (simp add: padding_def default_params_def)
  have aw: "width default_params - 2 * padding default_params = 158"
    and ah: "height default_params - 2 * padding default_params = 98"
    by (simp_all add: pad) (simp_all add: default_params_def)
  have D: "1 + (real (length (filter (\<lambda>l. strip l \<noteq> []) (get_line_texts default_params))) - 1)
         * line_spacing default_params = 23 / 10"
    by (simp add: ne) (simp add: default_params_def)
  have v: "auto_font_sizes default_params = Inr [790 / 33, 790 / 33]"
    by (simp add: auto_font_sizes_def Let_def lt strip_samples pad CHAR_WIDTH_RATIO_def
          numeral_2_eq_2)
       (simp add: default_params_def)
  have "\<exists>u. auto_font_sizes default_params
           = Inr (replicate (length (get_line_texts default_params)) u) \<and>
        stack_fits default_params u \<and> widths_fit default_params u \<and>
        (\<forall>v. stack_fits default_params v \<and> widths_fit default_params v \<longrightarrow> v \<le> u)"
  proof (rule auto_font_sizes_largest_fit)
    show "filter (\<lambda>l. strip l \<noteq> []) (get_line_texts default_params) \<noteq> []"
      by (simp add: ne)
    show "0 < width default_params - 2 * padding default_params" unfolding aw by simp
    show "0 < height default_params - 2 * padding default_params" unfolding ah by simp
    show "0 < 1 + (real (length (filter (\<lambda>l. strip l \<noteq> [])
                     (get_line_texts default_params))) - 1) * line_spacing default_params"
      unfolding D by simp
  qed
  with ne aw ah D v show ?thesis by blast
qed

text \<open>C4 as the specification states it fails for a negative line spacing: with the
  lines \<open>a\<close> and \<open>b\<close> at spacing -3 the divisor is -2 and the returned size is
  98 / (-2) = -49, although the size 1 satisfies both conditions as well.\<close>

theorem auto_font_sizes_largest_counterexample:
  "auto_font_sizes (two_short_lines \<lparr> line_spacing := - 3 \<rparr>) = Inr [- 49, - 49] \<and>
   stack_fits (two_short_lines \<lparr> line_spacing := - 3 \<rparr>) 1 \<and>
   widths_fit (two_short_lines \<lparr> line_spacing := - 3 \<rparr>) 1 \<and>
   \<not> (1 :: real) \<le> - 49"
  by (simp add: two_short_lines_def default_params_def auto_font_sizes_def get_line_texts_def
        padding_def strip_samples Let_def CHAR_WIDTH_RATIO_def stack_fits_def widths_fit_def
        numeral_2_eq_2)

text \<open>
  C6, as the code has it. The result does not depend on anything but the
  configuration's layout fields (in particular not on a stored list of sizes), so
  computing it again gives the same sizes. For line spacings \<open>s1 \<le> s2\<close> whose divisor
  \<open>1 + (n - 1) * s1\<close> is positive (any \<open>s1 \<ge> 0\<close>), the uniform size at \<open>s2\<close> is at
  most the uniform size at \<open>s1\<close>.
\<close>

theorem auto_font_sizes_antimono:
  assumes s: "s1 \<le> s2"
    and D: "0 < 1 + real (length (filter (\<lambda>l. strip l \<noteq> []) (get_line_texts p)) - 1) * s1"
  shows "(\<exists>u1 u2.
            auto_font_sizes (p\<lparr>line_spacing := s1\<rparr>)
              = Inr (replicate (length (get_line_texts p)) u1) \<and>
            auto_font_sizes (p\<lparr>line_spacing := s2\<rparr>)
              = Inr (replicate (length (get_line_texts p)) u2) \<and>
            u2 \<le> u1) \<and>
         auto_font_sizes (p\<lparr>sizes := z\<rparr>) = auto_font_sizes p"
proof -
  let ?lt = "get_line_texts p"
  let ?ne = "filter (\<lambda>l. strip l \<noteq> []) ?lt"
  let ?aw = "width p - 2 * padding p"
  let ?ah = "height p - 2 * padding p"
  let ?n = "length ?lt"
  note [simp] = line_spacing_irrelevant
  have main: "\<exists>u1 u2.
            auto_font_sizes (p\<lparr>line_spacing := s1\<rparr>) = Inr (replicate ?n u1) \<and>
            auto_font_sizes (p\<lparr>line_spacing := s2\<rparr>) = Inr (replicate ?n u2) \<and>
            u2 \<le> u1"
  proof (cases "?ne = []")
    case True
    then have "auto_font_sizes (p\<lparr>line_spacing := s\<rparr>) = Inr (replicate ?n 10)" for s
      by (simp add: auto_font_sizes_def Let_def)
    then show ?thesis by blast
  next
    case ne: False
    then have lt: "?lt \<noteq> []" by auto
    show ?thesis
    proof (cases "?aw \<le> 0 \<or> ?ah \<le> 0")
      case True
      then have "auto_font_sizes (p\<lparr>line_spacing := s\<rparr>) = Inr (replicate ?n 5)" for s
        using ne lt by (simp add: auto_font_sizes_def Let_def)
      then show ?thesis by blast
    next
      case False
      then have aw: "0 < ?aw" and ah: "0 < ?ah" by simp_all
      let ?m = "real (length ?ne) - 1"
      have m: "real (length ?ne - 1) = ?m" "0 \<le> ?m"
        using ne by (simp_all add: Suc_leI of_nat_diff)
      have D1: "0 < 1 + ?m * s1" using D m by simp
      have "?m * s1 \<le> ?m * s2" using s m by (simp add: mult_left_mono)
      then have D12: "1 + ?m * s1 \<le> 1 + ?m * s2" by simp
      with D1 have D2: "0 < 1 + ?m * s2" by simp
      have b: "?ah / (1 + ?m * s2) \<le> ?ah / (1 + ?m * s1)"
        using D1 D12 ah by (simp add: frac_le)
      have r1: "auto_font_sizes (p\<lparr>line_spacing := s1\<rparr>)
          = Inr (replicate ?n (cap_by_width ?aw (?ah / (1 + ?m * s1)) ?lt))"
        using auto_font_sizes_main [of "p\<lparr>line_spacing := s1\<rparr>"] ne aw ah D1 by simp
      have r2: "auto_font_sizes (p\<lparr>line_spacing := s2\<rparr>)
          = Inr (replicate ?n (cap_by_width ?aw (?ah / (1 + ?m * s2)) ?lt))"
        using auto_font_sizes_main [of "p\<lparr>line_spacing := s2\<rparr>"] ne aw ah D2 by simp
      from r1 r2 cap_by_width_mono [OF b] show ?thesis by blast
    qed
  qed
  with auto_font_sizes_ignores_sizes show ?thesis by blast
qed

text \<open>The lines \<open>a\<close> and \<open>b\<close> at the spacings 1 and 1.3: the sizes are 98 / 2 = 49 and
  98 / 2.3 = 980/23.\<close>

theorem auto_font_sizes_antimono_witness:
  "(1 :: real) \<le> 13 / 10 \<and>
   0 < 1 + real (length (filter (\<lambda>l. strip l \<noteq> []) (get_line_texts two_short_lines)) - 1) * 1 \<and>
   auto_font_sizes (two_short_lines \<lparr> line_spacing := 1 \<rparr>) = Inr [49, 49] \<and>
   auto_font_sizes (two_short_lines \<lparr> line_spacing := 13 / 10 \<rparr>) = Inr [980 / 23, 980 / 23] \<and>
   (\<exists>u1 u2.
      auto_font_sizes (two_short_lines \<lparr> line_spacing := 1 \<rparr>)
        = Inr (replicate (length (get_line_texts two_short_lines)) u1) \<and>
      auto_font_sizes (two_short_lines \<lparr> line_spacing := 13 / 10 \<rparr>)
        = Inr (replicate (length (get_line_texts two_short_lines)) u2) \<and>
      u2 \<le> u1)"
proof -
  have lt: "get_line_texts two_short_lines = [''a'', ''b'']"
    by (simp add: get_line_texts_def two_short_lines_def default_params_def)
  have h: "0 < 1 + real (length (filter (\<lambda>l. strip l \<noteq> [])
                 (get_line_texts two_short_lines)) - 1) * 1"
    by (simp add: lt strip_samples)
  have v: "auto_font_sizes (two_short_lines \<lparr> line_spacing := 1 \<rparr>) = Inr [49, 49]"
    "auto_font_sizes (two_short_lines \<lparr> line_spacing := 13 / 10 \<rparr>) = Inr [980 / 23, 980 / 23]"
    by (simp_all add: two_short_lines_def default_params_def auto_font_sizes_def
          get_line_texts_def padding_def strip_samples Let_def CHAR_WIDTH_RATIO_def
          numeral_2_eq_2)
  have le: "(1 :: real) \<le> 13 / 10" by simp
  from auto_font_sizes_antimono [OF le h, of None] h v show ?thesis by simp
qed

text \<open>C6 as the specification states it fails across a negative divisor: with the
  lines \<open>a\<close> and \<open>b\<close>, the spacing -3 gives the size -49 and the larger spacing 0
  gives the larger size 98.\<close>

theorem auto_font_sizes_antimono_counterexample:
  "(- 3 :: real) \<le> 0 \<and>
   auto_font_sizes (two_short_lines \<lparr> line_spacing := - 3 \<rparr>) = Inr [- 49, - 49] \<and>
   auto_font_sizes (two_short_lines \<lparr> line_spacing := 0 \<rparr>) = Inr [98, 98] \<and>
   \<not> (98 :: real) \<le> - 49"
  by (simp add: two_short_lines_def default_params_def auto_font_sizes_def get_line_texts_def
        padding_def strip_samples Let_def CHAR_WIDTH_RATIO_def numeral_2_eq_2)

section \<open>Properties of the border frame\<close>

text \<open>
  C8. When the border is requested (style not \<open>none\<close>, positive width) and one of the
  two \<open>offset2D\<close> calls raises, the frame is the one of the dimension-based offset, for
  every style: the outer outline is the plate's outline offset by the border offset,
  the inner one the outer outline offset by the border width. There is no frame
  exactly when the outer width or height is not positive; the frame is the outer
  solid alone when only the inner width or height is not positive; otherwise it is
  the outer solid minus the inner solid.
\<close>

theorem border_frame_fallback:
  assumes st: "border_style p \<noteq> ''none''" and bw: "0 < border_width p"
    and r: "offset_raises K (create_outline_wire (width p) (height p) (corner_radius p)
                               (border_style p)) (- border_offset p) \<or>
            offset_raises K (create_outline_wire (width p) (height p) (corner_radius p)
                               (border_style p)) (- (border_offset p + border_width p))"
  shows "(let outer = dimension_offset (width p, height p, corner_radius p) (border_offset p);
              inner = dimension_offset outer (border_width p)
          in (create_border_frame K p = None \<longleftrightarrow> fst outer \<le> 0 \<or> fst (snd outer) \<le> 0) \<and>
             (0 < fst outer \<and> 0 < fst (snd outer) \<and>
              (fst inner \<le> 0 \<or> fst (snd inner) \<le> 0) \<longrightarrow>
                create_border_frame K p
                  = Some (outline_of outer (border_style p) (text_depth p))) \<and>
             (0 < fst outer \<and> 0 < fst (snd outer) \<and> 0 < fst inner \<and> 0 < fst (snd inner) \<longrightarrow>
                create_border_frame K p
                  = Some (Cut (outline_of outer (border_style p) (text_depth p))
                              (outline_of inner (border_style p) (text_depth p)))))"
proof -
  have "create_border_frame K p = fallback_border p"
    using st bw r by (auto simp: create_border_frame_def Let_def)
  then show ?thesis
    by (auto simp: fallback_border_def Let_def dimension_offset_def outline_of_def)
qed

text \<open>The default sign (180 by 120, radius 12, offset 6, width 2) on a kernel whose
  offsets raise: outer outline 168 by 108 with radius 6, inner outline 164 by 104
  with radius 4. With border width 60 the inner height is -12 and the frame is the
  outer solid; with border offset 100 the outer width is -20 and there is no frame.\<close>

theorem border_frame_fallback_witness:
  "border_style default_params \<noteq> ''none'' \<and>
   0 < border_width default_params \<and>
   offset_raises failing_offsets
     (create_outline_wire (width default_params) (height default_params)
        (corner_radius default_params) (border_style default_params))
     (- border_offset default_params) \<and>
   create_border_frame failing_offsets default_params
     = Some (Cut (create_outline_solid 168 108 6 ''concave'' (6 / 10))
                 (create_outline_solid 164 104 4 ''concave'' (6 / 10))) \<and>
   create_border_frame failing_offsets (default_params \<lparr> border_width := 60 \<rparr>)
     = Some (create_outline_solid 168 108 6 ''concave'' (6 / 10)) \<and>
   create_border_frame failing_offsets (default_params \<lparr> border_offset := 100 \<rparr>) = None"
proof -
  have r: "offset_raises failing_offsets w d" for w d
    by (simp add: failing_offsets_def)
  have 1: "border_style default_params \<noteq> ''none''" "0 < border_width default_params"
    by (simp_all add: default_params_def)
  have 2: "border_style (default_params \<lparr> border_width := 60 \<rparr>) \<noteq> ''none''"
    "0 < border_width (default_params \<lparr> border_width := 60 \<rparr>)"
    by (simp_all add: default_params_def)
  have 3: "border_style (default_params \<lparr> border_offset := 100 \<rparr>) \<noteq> ''none''"
    "0 < border_width (default_params \<lparr> border_offset := 100 \<rparr>)"
    by (simp_all add: default_params_def)
  have a: "create_border_frame failing_offsets default_params
     = Some (Cut (create_outline_solid 168 108 6 ''concave'' (6 / 10))
                 (create_outline_solid 164 104 4 ''concave'' (6 / 10)))"
    using border_frame_fallback [OF 1 disjI1 [OF r]]
    by (simp add: Let_def dimension_offset_def outline_of_def default_params_def)
  have b: "create_border_frame failing_offsets (default_params \<lparr> border_width := 60 \<rparr>)
     = Some (create_outline_solid 168 108 6 ''concave'' (6 / 10))"
    using border_frame_fallback [OF 2 disjI1 [OF r]]
    by (simp add: Let_def dimension_offset_def outline_of_def default_params_def)
  have c: "create_border_frame failing_offsets (default_params \<lparr> border_offset := 100 \<rparr>)
     = None"
    using border_frame_fallback [OF 3 disjI1 [OF r]]
    by (simp add: Let_def dimension_offset_def outline_of_def default_params_def)
  from 1 r a b c show ?thesis by blast
qed

section \<open>Properties of the two pieces\<close>

lemma non_empty_indices_bound: "i \<in> set (non_empty_indices lt) \<Longrightarrow> i < length lt"
  by (simp add: non_empty_indices_def)

text \<open>
  C9. When \<open>_create_text_solids\<close> returns \<open>None\<close> and \<open>_create_border_frame\<close> returns
  \<open>None\<close>, \<open>generate_sign\<close> returns no black piece and the full plate, uncut, as white
  piece. The border frame is \<open>None\<close> whenever the border style is \<open>none\<close> or the border
  width is not positive, and the text solid is \<open>None\<close> whenever every line is empty
  after stripping.
\<close>

theorem generate_sign_plain_plate:
  "(create_text_solids K p = Inr None \<and> create_border_frame K p = None \<longrightarrow>
      generate_sign K p = Inr (None, full_plate p)) \<and>
   (border_style p = ''none'' \<or> border_width p \<le> 0 \<longrightarrow> create_border_frame K p = None) \<and>
   ((\<forall>l \<in> set (get_line_texts p). strip l = []) \<longrightarrow> create_text_solids K p = Inr None)"
proof -
  have a: "generate_sign K p = Inr (None, full_plate p)"
    if "create_text_solids K p = Inr None \<and> create_border_frame K p = None"
    using that by (simp add: generate_sign_def full_plate_def Let_def)
  have b: "create_border_frame K p = None" if "border_style p = ''none'' \<or> border_width p \<le> 0"
    using that by (auto simp: create_border_frame_def)
  have c: "create_text_solids K p = Inr None" if "\<forall>l \<in> set (get_line_texts p). strip l = []"
  proof -
    have "non_empty_indices (get_line_texts p) = []"
      using that by (auto simp: non_empty_indices_def filter_empty_conv)
    then show ?thesis by (simp add: create_text_solids_def Let_def)
  qed
  from a b c show ?thesis by blast
qed

text \<open>The blank sign gives no black piece and the 180 by 120 by 3 box; the default
  sign with border width 0 has no border frame.\<close>

theorem generate_sign_plain_plate_witness:
  "map strip (get_line_texts blank_sign) = [[], []] \<and>
   border_style blank_sign = ''none'' \<and>
   create_text_solids plain_kernel blank_sign = Inr None \<and>
   create_border_frame plain_kernel blank_sign = None \<and>
   generate_sign plain_kernel blank_sign = Inr (None, Extrude (Rect (0, 0) 180 120) 3) \<and>
   border_width (default_params \<lparr> border_width := 0 \<rparr>) \<le> 0 \<and>
   create_border_frame plain_kernel (default_params \<lparr> border_width := 0 \<rparr>) = None"
proof -
  have lt: "get_line_texts blank_sign = [[], ''  '']"
    by (simp add: get_line_texts_def blank_sign_def default_params_def)
  have st: "map strip (get_line_texts blank_sign) = [[], []]"
    by (simp add: lt strip_samples)
  have all: "\<forall>l \<in> set (get_line_texts blank_sign). strip l = []"
    by (simp add: lt strip_samples)
  have style: "border_style blank_sign = ''none''"
    by (simp add: blank_sign_def)
  have bw: "border_width (default_params \<lparr> border_width := 0 \<rparr>) \<le> 0"
    by simp
  have plate: "full_plate blank_sign = Extrude (Rect (0, 0) 180 120) 3"
    by (simp add: full_plate_def create_outline_solid_def create_outline_wire_def
          blank_sign_def default_params_def)
  note t = generate_sign_plain_plate [of plain_kernel blank_sign]
  have no_text: "create_text_solids plain_kernel blank_sign = Inr None"
    using t all by blast
  have border: "create_border_frame plain_kernel blank_sign = None"
    using t style by blast
  have sign: "generate_sign plain_kernel blank_sign = Inr (None, Extrude (Rect (0, 0) 180 120) 3)"
    using t no_text border plate by simp
  have nb: "create_border_frame plain_kernel (default_params \<lparr> border_width := 0 \<rparr>) = None"
    using generate_sign_plain_plate [of plain_kernel "default_params \<lparr> border_width := 0 \<rparr>"] bw
    by blast
  from st style no_text border sign bw nb show ?thesis by blast
qed

section \<open>Properties of the explicit font sizes\<close>

lemma collect_map_Inr: "collect (map (\<lambda>i. Inr (f i)) xs) = Inr (map f xs)"
  by (induction xs) simp_all

lemma build_line_data_in_range:
  assumes "length szs = length lt"
  shows "build_line_data lt szs
           = Inr (map (\<lambda>i. (strip (lt ! i), szs ! i)) (non_empty_indices lt))"
proof -
  have "map (\<lambda>i. case size_at szs i of Inl e \<Rightarrow> Inl e
                   | Inr sz \<Rightarrow> Inr (strip (lt ! i), sz)) (non_empty_indices lt)
      = map (\<lambda>i. Inr (strip (lt ! i), szs ! i)) (non_empty_indices lt)"
    using assms by (auto simp: size_at_def dest: non_empty_indices_bound)
  then show ?thesis
    unfolding build_line_data_def by (simp only: collect_map_Inr)
qed

lemma group_solids_ignores_sizes:
  "group_solids K (p\<lparr>sizes := z\<rparr>) fs y x gs = group_solids K p fs y x gs"
  by (induction gs arbitrary: x) (auto simp: Let_def)

lemma styled_line_solids_ignores_sizes:
  "styled_line_solids K (p\<lparr>sizes := z\<rparr>) runs fs y = styled_line_solids K p runs fs y"
  by (simp add: styled_line_solids_def group_solids_ignores_sizes Let_def
        split: prod.split cong: if_cong)

lemma global_line_solids_ignores_sizes:
  "global_line_solids K (p\<lparr>sizes := z\<rparr>) t fs y = global_line_solids K p t fs y"
  by (simp add: global_line_solids_def Let_def)

lemma create_border_frame_ignores_sizes:
  "create_border_frame K (p\<lparr>sizes := z\<rparr>) = create_border_frame K p"
  by (simp add: create_border_frame_def fallback_border_def Let_def cong: if_cong)

lemma choose_sizes_None: "choose_sizes (p\<lparr>sizes := None\<rparr>) = auto_font_sizes p"
  by (simp add: choose_sizes_def auto_font_sizes_ignores_sizes)

lemma create_text_solids_cong:
  assumes "choose_sizes (p\<lparr>sizes := z\<rparr>) = choose_sizes p"
  shows "create_text_solids K (p\<lparr>sizes := z\<rparr>) = create_text_solids K p"
  unfolding create_text_solids_def
  by (simp add: assms sizes_irrelevant styled_line_solids_ignores_sizes
        global_line_solids_ignores_sizes Let_def cong: if_cong sum.case_cong option.case_cong)

lemma generate_sign_cong:
  assumes "choose_sizes (p\<lparr>sizes := z\<rparr>) = choose_sizes p"
  shows "generate_sign K (p\<lparr>sizes := z\<rparr>) = generate_sign K p"
  unfolding generate_sign_def
  by (simp add: create_text_solids_cong [OF assms] create_border_frame_ignores_sizes
        cong: sum.case_cong)

text \<open>
  C10. A configuration with an explicit list of sizes: in \<open>_create_text_solids\<close> the list
  is used, entry \<open>i\<close> for line \<open>i\<close>, when it is not empty and as long as the list of
  line texts; otherwise the sizes are those of \<open>auto_font_sizes\<close>, and the text solids
  and the two pieces are those of the same configuration without explicit sizes. The
  preview makes the same choice, comparing with the number of plain lines.
\<close>

theorem explicit_sizes_need_matching_length:
  assumes sz: "sizes p = Some szs"
  shows "(szs \<noteq> [] \<and> length szs = length (get_line_texts p) \<longrightarrow>
            choose_sizes p = Inr szs \<and>
            build_line_data (get_line_texts p) szs
              = Inr (map (\<lambda>i. (strip (get_line_texts p ! i), szs ! i))
                       (non_empty_indices (get_line_texts p)))) \<and>
         (szs = [] \<or> length szs \<noteq> length (get_line_texts p) \<longrightarrow>
            choose_sizes p = auto_font_sizes p \<and>
            create_text_solids K p = create_text_solids K (p\<lparr>sizes := None\<rparr>) \<and>
            generate_sign K p = generate_sign K (p\<lparr>sizes := None\<rparr>)) \<and>
         (szs \<noteq> [] \<and> length szs = length (lines p) \<longrightarrow> preview_sizes p = Inr szs) \<and>
         (szs = [] \<or> length szs \<noteq> length (lines p) \<longrightarrow> preview_sizes p = auto_font_sizes p)"
proof -
  have a: "choose_sizes p = Inr szs \<and>
            build_line_data (get_line_texts p) szs
              = Inr (map (\<lambda>i. (strip (get_line_texts p ! i), szs ! i))
                       (non_empty_indices (get_line_texts p)))"
    if "szs \<noteq> [] \<and> length szs = length (get_line_texts p)"
    using that sz by (simp add: choose_sizes_def build_line_data_in_range)
  have b: "choose_sizes p = auto_font_sizes p \<and>
            create_text_solids K p = create_text_solids K (p\<lparr>sizes := None\<rparr>) \<and>
            generate_sign K p = generate_sign K (p\<lparr>sizes := None\<rparr>)"
    if h: "szs = [] \<or> length szs \<noteq> length (get_line_texts p)"
  proof -
    have c: "choose_sizes p = auto_font_sizes p"
      using h sz by (auto simp: choose_sizes_def)
    then have "choose_sizes (p\<lparr>sizes := None\<rparr>) = choose_sizes p"
      by (simp add: choose_sizes_None)
    with c show ?thesis
      by (simp add: create_text_solids_cong generate_sign_cong)
  qed
  have c: "preview_sizes p = Inr szs" if "szs \<noteq> [] \<and> length szs = length (lines p)"
    using that sz by (simp add: preview_sizes_def)
  have d: "preview_sizes p = auto_font_sizes p" if "szs = [] \<or> length szs \<noteq> length (lines p)"
    using that sz by (auto simp: preview_sizes_def)
  from a b c d show ?thesis by blast
qed

text \<open>The default sign has two lines. The sizes 20 and 30 are used; the single size
  20 is ignored and both lines get the automatic size 790/33.\<close>

theorem explicit_sizes_need_matching_length_witness:
  "sizes (default_params \<lparr> sizes := Some [20, 30] \<rparr>) = Some [20, 30] \<and>
   length [20, 30 :: real] = length (get_line_texts (default_params \<lparr> sizes := Some [20, 30] \<rparr>)) \<and>
   choose_sizes (default_params \<lparr> sizes := Some [20, 30] \<rparr>) = Inr [20, 30] \<and>
   preview_sizes (default_params \<lparr> sizes := Some [20, 30] \<rparr>) = Inr [20, 30] \<and>
   sizes (default_params \<lparr> sizes := Some [20] \<rparr>) = Some [20] \<and>
   length [20 :: real] \<noteq> length (get_line_texts (default_params \<lparr> sizes := Some [20] \<rparr>)) \<and>
   choose_sizes (default_params \<lparr> sizes := Some [20] \<rparr>) = Inr [790 / 33, 790 / 33] \<and>
   preview_sizes (default_params \<lparr> sizes := Some [20] \<rparr>) = Inr [790 / 33, 790 / 33] \<and>
   generate_sign plain_kernel (default_params \<lparr> sizes := Some [20] \<rparr>)
     = generate_sign plain_kernel (default_params \<lparr> sizes := Some [20], sizes := None \<rparr>)"
proof -
  let ?p = "default_params \<lparr> sizes := Some [20, 30] \<rparr>"
  let ?q = "default_params \<lparr> sizes := Some [20] \<rparr>"
  have auto: "auto_font_sizes ?q = Inr [790 / 33, 790 / 33]"
    by (simp add: auto_font_sizes_def Let_def get_line_texts_def padding_def strip_samples
          CHAR_WIDTH_RATIO_def numeral_2_eq_2 default_params_def)
  have p1: "sizes ?p = Some [20, 30]" by simp
  have p2: "length [20, 30 :: real] = length (get_line_texts ?p)"
    "length [20, 30 :: real] = length (lines ?p)"
    by (simp_all add: get_line_texts_def default_params_def)
  have q1: "sizes ?q = Some [20]" by simp
  have q2: "length [20 :: real] \<noteq> length (get_line_texts ?q)"
    "length [20 :: real] \<noteq> length (lines ?q)"
    by (simp_all add: get_line_texts_def default_params_def)
  note tp = explicit_sizes_need_matching_length [OF p1, of plain_kernel]
  note tq = explicit_sizes_need_matching_length [OF q1, of plain_kernel]
  have a: "choose_sizes ?p = Inr [20, 30]" using tp p2 by simp
  have b: "preview_sizes ?p = Inr [20, 30]" using tp p2 by simp
  have c: "choose_sizes ?q = Inr [790 / 33, 790 / 33]" using tq q2 auto by simp
  have d: "preview_sizes ?q = Inr [790 / 33, 790 / 33]" using tq q2 auto by simp
  have e: "generate_sign plain_kernel ?q = generate_sign plain_kernel (?q \<lparr> sizes := None \<rparr>)"
    using tq q2 by blast
  from p1 p2 q1 q2 a b c d e show ?thesis by simp
qed

section \<open>Properties of the preview's offset outline\<close>

text \<open>A point at distance \<open>R\<close> from the origin is recovered from its angle.\<close>

lemma atan2_polar:
  assumes R: "0 < R" and c: "x * x + y * y = R * R"
  shows "R * cos (atan2 y x) = x \<and> R * sin (atan2 y x) = y"
proof -
  consider "0 < x" | "x < 0" | "x = 0" by linarith
  then show ?thesis
  proof cases
    case 1
    have "1 + (y / x)\<^sup>2 = (R / x)\<^sup>2"
      using 1 c by (simp add: power2_eq_square field_simps)
    then have q: "sqrt (1 + (y / x)\<^sup>2) = R / x"
      using 1 R by (simp add: real_sqrt_unique)
    show ?thesis
      using 1 R by (simp add: atan2_def cos_arctan sin_arctan q)
  next
    case 2
    have "1 + (y / x)\<^sup>2 = (R / (- x))\<^sup>2"
      using 2 c by (simp add: power2_eq_square field_simps)
    then have q: "sqrt (1 + (y / x)\<^sup>2) = R / (- x)"
      using 2 R by (simp add: real_sqrt_unique)
    show ?thesis
      using 2 R by (simp add: atan2_def cos_arctan sin_arctan q)
  next
    case 3
    then have "y * y = R * R" using c by simp
    then have "y = R \<or> y = - R" by (metis mult_minus_left mult_minus_right square_eq_iff)
    then show ?thesis using 3 R by (auto simp: atan2_def)
  qed
qed

lemma last_map_upt: "0 < n \<Longrightarrow> last (map f [1 ..< n + 1]) = f n"
  by (simp add: last_map)

text \<open>With at least one segment, the sampled arc ends in its end point, whichever
  way round the sweep goes.\<close>

lemma add_offset_arc_last:
  assumes n: "0 < n" and R: "0 < R"
    and p2: "(x2 - cx) * (x2 - cx) + (y2 - cy) * (y2 - cy) = R * R"
  shows "add_offset_arc cx cy R x1 y1 x2 y2 n \<noteq> [] \<and>
         last (add_offset_arc cx cy R x1 y1 x2 y2 n) = PLineTo (x2, y2)"
proof -
  let ?a1 = "atan2 (y1 - cy) (x1 - cx)"
  let ?a2 = "atan2 (y2 - cy) (x2 - cx)"
  let ?delta = "if ?a2 - ?a1 > 0 then ?a2 - ?a1 - 2 * pi else ?a2 - ?a1"
  have e: "cos (?a1 + ?delta) = cos ?a2 \<and> sin (?a1 + ?delta) = sin ?a2"
  proof (cases "?a2 - ?a1 > 0")
    case True
    then have "?a1 + ?delta + 2 * pi = ?a2" by simp
    then show ?thesis by (metis cos_periodic sin_periodic)
  next
    case False
    then show ?thesis by simp
  qed
  from atan2_polar [OF R p2]
  have "cx + R * cos ?a2 = x2" "cy + R * sin ?a2 = y2" by simp_all
  with e have pt: "cx + R * cos (?a1 + ?delta) = x2" "cy + R * sin (?a1 + ?delta) = y2"
    by simp_all
  have ne: "add_offset_arc cx cy R x1 y1 x2 y2 n \<noteq> []"
    using n by (simp add: add_offset_arc_def Let_def)
  have "last (add_offset_arc cx cy R x1 y1 x2 y2 n)
      = PLineTo (cx + R * cos (?a1 + ?delta * (real n / real n)),
                 cy + R * sin (?a1 + ?delta * (real n / real n)))"
    using n unfolding add_offset_arc_def Let_def by (simp only: last_map_upt)
  also have "\<dots> = PLineTo (x2, y2)"
    using n pt by simp
  finally show ?thesis using ne by simp
qed

lemma segment_length_horizontal: "x1 \<le> x2 \<Longrightarrow> segment_length (x1, y) (x2, y) = x2 - x1"
  by (simp add: segment_length_def)

lemma segment_length_horizontal_back:
  "x2 \<le> x1 \<Longrightarrow> segment_length (x1, y) (x2, y) = x1 - x2"
  by (simp add: segment_length_def)

lemma segment_length_vertical: "y1 \<le> y2 \<Longrightarrow> segment_length (x, y1) (x, y2) = y2 - y1"
  by (simp add: segment_length_def)

lemma segment_length_vertical_back:
  "y2 \<le> y1 \<Longrightarrow> segment_length (x, y1) (x, y2) = y1 - y2"
  by (simp add: segment_length_def)

text \<open>The path of the last branch of \<open>_build_offset_concave_path\<close>.\<close>

lemma build_offset_concave_path_regular:
  assumes "d < hw" "d < hh" "0 < r + d" "d < r + d"
    and "0 \<le> (r + d) * (r + d) - d * d"
    and "sqrt ((r + d) * (r + d) - d * d) < hw"
    and "sqrt ((r + d) * (r + d) - d * d) < hh"
    and "R = r + d" and "s = sqrt (R * R - d * d)"
  shows "build_offset_concave_path hw hh r d n =
           Inr ([PMoveTo (- hw + s, - hh + d), PLineTo (hw - s, - hh + d)]
                @ add_offset_arc hw (- hh) R (hw - s) (- hh + d) (hw - d) (- hh + s) n
                @ [PLineTo (hw - d, hh - s)]
                @ add_offset_arc hw hh R (hw - d) (hh - s) (hw - s) (hh - d) n
                @ [PLineTo (- hw + s, hh - d)]
                @ add_offset_arc (- hw) hh R (- hw + s) (hh - d) (- hw + d) (hh - s) n
                @ [PLineTo (- hw + d, - hh + s)]
                @ add_offset_arc (- hw) (- hh) R (- hw + d) (- hh + s) (- hw + s) (- hh + d) n
                @ [PCloseSubpath])"
  using assms by (simp add: build_offset_concave_path_def py_sqrt_def Let_def)

lemma sqrt_288_bounds: "1697 / 100 < sqrt 288 \<and> sqrt 288 < 1698 / 100"
proof
  have "(1697 / 100 :: real)\<^sup>2 < 288" by (simp add: power2_eq_square)
  then show "1697 / 100 < sqrt 288" by (rule real_less_rsqrt)
  have "(288 :: real) < (1698 / 100)\<^sup>2" by (simp add: power2_eq_square)
  then show "sqrt 288 < 1698 / 100" by (intro real_less_lsqrt) simp_all
qed

text \<open>
  C2, as the code has it. For a non-negative offset \<open>d\<close> with \<open>d < R = r + d\<close> that is
  smaller than both half extents, and \<open>s = sqrt(R * R - d * d)\<close> smaller than both half
  extents (edges of positive length), the path starts at the junction \<open>(-hw + s, -hh + d)\<close>,
  each of its four straight edges joins two junctions that lie \<open>s\<close> along the edge and
  \<open>d\<close> across it from the plate corners, each sampled arc ends in the next junction,
  and the straight edges have the lengths \<open>2 * hw - 2 * s\<close> and \<open>2 * hh - 2 * s\<close>, the
  plate's width and height minus \<open>2 * s\<close>.
\<close>

theorem offset_concave_path_junctions:
  assumes d0: "0 \<le> d" and r: "d < r + d" and dw: "d < hw" and dh: "d < hh"
    and sw: "sqrt ((r + d) * (r + d) - d * d) < hw"
    and sh: "sqrt ((r + d) * (r + d) - d * d) < hh"
    and n: "0 < n"
  shows "(let R = r + d;
              s = sqrt (R * R - d * d);
              arc_br = add_offset_arc hw (- hh) R (hw - s) (- hh + d) (hw - d) (- hh + s) n;
              arc_tr = add_offset_arc hw hh R (hw - d) (hh - s) (hw - s) (hh - d) n;
              arc_tl = add_offset_arc (- hw) hh R (- hw + s) (hh - d) (- hw + d) (hh - s) n;
              arc_bl = add_offset_arc (- hw) (- hh) R (- hw + d) (- hh + s) (- hw + s) (- hh + d) n
          in build_offset_concave_path hw hh r d n =
               Inr ([PMoveTo (- hw + s, - hh + d), PLineTo (hw - s, - hh + d)] @ arc_br
                    @ [PLineTo (hw - d, hh - s)] @ arc_tr
                    @ [PLineTo (- hw + s, hh - d)] @ arc_tl
                    @ [PLineTo (- hw + d, - hh + s)] @ arc_bl
                    @ [PCloseSubpath]) \<and>
             last arc_br = PLineTo (hw - d, - hh + s) \<and>
             last arc_tr = PLineTo (hw - s, hh - d) \<and>
             last arc_tl = PLineTo (- hw + d, hh - s) \<and>
             last arc_bl = PLineTo (- hw + s, - hh + d) \<and>
             segment_length (- hw + s, - hh + d) (hw - s, - hh + d) = 2 * hw - 2 * s \<and>
             segment_length (hw - d, - hh + s) (hw - d, hh - s) = 2 * hh - 2 * s \<and>
             segment_length (hw - s, hh - d) (- hw + s, hh - d) = 2 * hw - 2 * s \<and>
             segment_length (- hw + d, hh - s) (- hw + d, - hh + s) = 2 * hh - 2 * s)"
proof -
  define R where "R = r + d"
  define s where "s = sqrt (R * R - d * d)"
  have R: "0 < R" "d < R" using d0 r by (simp_all add: R_def)
  have nonneg: "0 \<le> R * R - d * d"
    using d0 R by (simp add: mult_mono)
  have ss: "s * s = R * R - d * d"
    unfolding s_def using nonneg by simp
  have circ: "s * s + d * d = R * R" "d * d + s * s = R * R" using ss by simp_all
  have sw': "s < hw" and sh': "s < hh" using sw sh by (simp_all add: s_def R_def)
  have path: "build_offset_concave_path hw hh r d n =
               Inr ([PMoveTo (- hw + s, - hh + d), PLineTo (hw - s, - hh + d)]
                    @ add_offset_arc hw (- hh) R (hw - s) (- hh + d) (hw - d) (- hh + s) n
                    @ [PLineTo (hw - d, hh - s)]
                    @ add_offset_arc hw hh R (hw - d) (hh - s) (hw - s) (hh - d) n
                    @ [PLineTo (- hw + s, hh - d)]
                    @ add_offset_arc (- hw) hh R (- hw + s) (hh - d) (- hw + d) (hh - s) n
                    @ [PLineTo (- hw + d, - hh + s)]
                    @ add_offset_arc (- hw) (- hh) R (- hw + d) (- hh + s) (- hw + s) (- hh + d) n
                    @ [PCloseSubpath])"
    using R nonneg dw dh sw sh
    by (intro build_offset_concave_path_regular) (simp_all add: R_def s_def)
  have l1: "last (add_offset_arc hw (- hh) R (hw - s) (- hh + d) (hw - d) (- hh + s) n)
              = PLineTo (hw - d, - hh + s)"
    using add_offset_arc_last [OF n R(1), of "hw - d" hw "- hh + s" "- hh"] circ by simp
  have l2: "last (add_offset_arc hw hh R (hw - d) (hh - s) (hw - s) (hh - d) n)
              = PLineTo (hw - s, hh - d)"
    using add_offset_arc_last [OF n R(1), of "hw - s" hw "hh - d" hh] circ by simp
  have l3: "last (add_offset_arc (- hw) hh R (- hw + s) (hh - d) (- hw + d) (hh - s) n)
              = PLineTo (- hw + d, hh - s)"
    using add_offset_arc_last [OF n R(1), of "- hw + d" "- hw" "hh - s" hh] circ by simp
  have l4: "last (add_offset_arc (- hw) (- hh) R (- hw + d) (- hh + s) (- hw + s) (- hh + d) n)
              = PLineTo (- hw + s, - hh + d)"
    using add_offset_arc_last [OF n R(1), of "- hw + s" "- hw" "- hh + d" "- hh"] circ by simp
  have e1: "segment_length (- hw + s, - hh + d) (hw - s, - hh + d) = 2 * hw - 2 * s"
    using sw' by (simp add: segment_length_horizontal)
  have e2: "segment_length (hw - d, - hh + s) (hw - d, hh - s) = 2 * hh - 2 * s"
    using sh' by (simp add: segment_length_vertical)
  have e3: "segment_length (hw - s, hh - d) (- hw + s, hh - d) = 2 * hw - 2 * s"
    using sw' by (simp add: segment_length_horizontal_back)
  have e4: "segment_length (- hw + d, hh - s) (- hw + d, - hh + s) = 2 * hh - 2 * s"
    using sh' by (simp add: segment_length_vertical_back)
  from path l1 l2 l3 l4 e1 e2 e3 e4 show ?thesis
    unfolding Let_def R_def [symmetric] s_def [symmetric] by blast
qed

text \<open>Width 180, height 120, radius 12, offset 6: \<open>R = 18\<close>, \<open>s = sqrt 288\<close>, about 16.97;
  the horizontal edges have length \<open>180 - 2 * sqrt 288\<close>, the vertical ones
  \<open>120 - 2 * sqrt 288\<close>.\<close>

theorem offset_concave_path_junctions_witness:
  "(0 :: real) \<le> 6 \<and> (6 :: real) < 12 + 6 \<and> (6 :: real) < 90 \<and> (6 :: real) < 60 \<and>
   sqrt ((12 + 6) * (12 + 6) - 6 * 6) = sqrt 288 \<and>
   sqrt 288 < 60 \<and> 1697 / 100 < sqrt 288 \<and> sqrt 288 < 1698 / 100 \<and>
   segment_length (- 90 + sqrt 288, - 60 + 6) (90 - sqrt 288, - 60 + 6) = 180 - 2 * sqrt 288 \<and>
   segment_length (90 - 6, - 60 + sqrt 288) (90 - 6, 60 - sqrt 288) = 120 - 2 * sqrt 288 \<and>
   last (add_offset_arc 90 (- 60) 18 (90 - sqrt 288) (- 60 + 6) (90 - 6) (- 60 + sqrt 288) 16)
     = PLineTo (90 - 6, - 60 + sqrt 288) \<and>
   (\<exists>rest. build_offset_concave_path 90 60 12 6 16
      = Inr (PMoveTo (- 90 + sqrt 288, - 60 + 6) # PLineTo (90 - sqrt 288, - 60 + 6) # rest))"
proof -
  have s: "sqrt ((12 + 6) * (12 + 6) - 6 * 6) = sqrt 288" by simp
  have b: "sqrt 288 < 60" "sqrt 288 < 90" using sqrt_288_bounds by simp_all
  have h: "(0 :: real) \<le> 6" "(6 :: real) < 12 + 6" "(6 :: real) < 90" "(6 :: real) < 60"
    "sqrt ((12 + 6) * (12 + 6) - 6 * 6) < 90" "sqrt ((12 + 6) * (12 + 6) - 6 * 6) < 60"
    "(0 :: nat) < 16"
    using b by simp_all
  from offset_concave_path_junctions [OF h] s b sqrt_288_bounds show ?thesis
    by (simp add: Let_def)
qed

text \<open>C2 as the specification states it fails when the offset reaches a half
  extent: for half extents 10 and 10, radius 1 and offset 10 we have \<open>d < R = 11\<close>
  and \<open>s = sqrt 21 < 10\<close>, so both edges would have positive length, but the path
  is empty.\<close>

theorem offset_concave_path_junctions_counterexample:
  "(10 :: real) < 1 + 10 \<and>
   sqrt ((1 + 10) * (1 + 10) - 10 * 10) < 10 \<and>
   build_offset_concave_path 10 10 1 10 16 = Inr []"
proof -
  have "sqrt 21 < 10" by (simp add: real_less_lsqrt)
  then show ?thesis by (simp add: build_offset_concave_path_def)
qed

text \<open>
  C5, as the code has it. When the offset reaches a half extent the path is empty.
  When the offset is smaller than both half extents and \<open>d \<ge> R\<close>, or \<open>R \<le> 0\<close>, or \<open>s\<close>
  is defined and reaches a half extent (an edge of non-positive length), the path is
  the inset rectangle with the half extents \<open>hw - d\<close> and \<open>hh - d\<close>, which are positive.
\<close>

theorem offset_concave_path_degenerate:
  "(hw \<le> d \<or> hh \<le> d \<longrightarrow> build_offset_concave_path hw hh r d n = Inr []) \<and>
   (d < hw \<and> d < hh \<and>
    (r + d \<le> d \<or> r + d \<le> 0 \<or>
     (d * d \<le> (r + d) * (r + d) \<and>
      (hw \<le> sqrt ((r + d) * (r + d) - d * d) \<or> hh \<le> sqrt ((r + d) * (r + d) - d * d)))) \<longrightarrow>
      build_offset_concave_path hw hh r d n
        = Inr [PAddRect (- (hw - d)) (- (hh - d)) (2 * (hw - d)) (2 * (hh - d))] \<and>
      0 < 2 * (hw - d) \<and> 0 < 2 * (hh - d))"
  by (auto simp: build_offset_concave_path_def py_sqrt_def inset_rect_def Let_def)

text \<open>Half extents 10 and 10 with offset 12: empty. Half extents 90 and 60 with
  radius 0 and offset 6 (\<open>d \<ge> R\<close>): the rectangle from (-84, -54) of size 168 by 108.
  Half extents 90 and 10 with radius 12 and offset 6: \<open>s = sqrt 288\<close> exceeds 10, the
  rectangle from (-84, -4) of size 168 by 8.\<close>

theorem offset_concave_path_degenerate_witness:
  "(10 :: real) \<le> 12 \<and>
   build_offset_concave_path 10 10 1 12 16 = Inr [] \<and>
   (6 :: real) < 90 \<and> (6 :: real) < 60 \<and> (0 :: real) + 6 \<le> 6 \<and>
   build_offset_concave_path 90 60 0 6 16 = Inr [PAddRect (- 84) (- 54) 168 108] \<and>
   (6 :: real) < 10 \<and> (6 :: real) * 6 \<le> (12 + 6) * (12 + 6) \<and>
   10 \<le> sqrt ((12 + 6) * (12 + 6) - 6 * 6) \<and>
   build_offset_concave_path 90 10 12 6 16 = Inr [PAddRect (- 84) (- 4) 168 8]"
proof -
  have s: "10 \<le> sqrt ((12 + 6) * (12 + 6) - 6 * 6)"
    using sqrt_288_bounds by simp
  have a: "build_offset_concave_path 10 10 1 12 16 = Inr []"
    using offset_concave_path_degenerate [of 10 12 10 1 16] by simp
  have b: "build_offset_concave_path 90 60 0 6 16 = Inr [PAddRect (- 84) (- 54) 168 108]"
    using offset_concave_path_degenerate [of 90 6 60 0 16] by simp
  have c: "build_offset_concave_path 90 10 12 6 16 = Inr [PAddRect (- 84) (- 4) 168 8]"
    using offset_concave_path_degenerate [of 90 6 10 12 16] s by simp
  from a b c s show ?thesis by simp
qed

text \<open>C5 as the specification states it fails when the offset reaches a half
  extent: for half extents 10 and 10 and offset 12 the path is empty, not the inset
  rectangle of half extents -2 and -2.\<close>

theorem offset_concave_path_degenerate_counterexample:
  "(10 :: real) \<le> 12 \<and>
   build_offset_concave_path 10 10 1 12 16 = Inr [] \<and>
   build_offset_concave_path 10 10 1 12 16 \<noteq> Inr [inset_rect 10 10 12]"
  by (simp add: build_offset_concave_path_def)

text \<open>
  Outside the degenerate cases the code does not test whether the junction distance
  \<open>s\<close> is at least the offset \<open>d\<close>. For half extents 90 and 60, radius 1 and offset 6
  we have \<open>s = sqrt 13 < 6\<close>: the bottom edge runs from \<open>x = -90 + s\<close> to \<open>x = 90 - s\<close> at
  \<open>y = -54\<close>, the right edge from \<open>y = -60 + s\<close> to \<open>y = 60 - s\<close> at \<open>x = 84\<close>, and the two
  edges cross in the point (84, -54).
\<close>

lemma sqrt_13_bounds: "3 < sqrt 13 \<and> sqrt 13 < 4"
proof
  have "(3 :: real)\<^sup>2 < 13" by simp
  then show "3 < sqrt 13" by (rule real_less_rsqrt)
  have "(13 :: real) < 4\<^sup>2" by simp
  then show "sqrt 13 < 4" by (intro real_less_lsqrt) simp_all
qed

lemma offset_concave_path_crossing_example:
  "\<exists>arc rest.
     build_offset_concave_path 90 60 1 6 16 =
       Inr (PMoveTo (- 90 + sqrt 13, - 54) # PLineTo (90 - sqrt 13, - 54)
            # arc @ PLineTo (84, 60 - sqrt 13) # rest) \<and>
     last arc = PLineTo (84, - 60 + sqrt 13) \<and>
     - 90 + sqrt 13 < 84 \<and> 84 < 90 - sqrt 13 \<and>
     - 60 + sqrt 13 < - 54 \<and> - 54 < 60 - sqrt 13"
proof -
  note b = sqrt_13_bounds
  have path: "build_offset_concave_path 90 60 1 6 16 =
           Inr ([PMoveTo (- 90 + sqrt 13, - 60 + 6), PLineTo (90 - sqrt 13, - 60 + 6)]
                @ add_offset_arc 90 (- 60) 7 (90 - sqrt 13) (- 60 + 6) (90 - 6) (- 60 + sqrt 13) 16
                @ [PLineTo (90 - 6, 60 - sqrt 13)]
                @ add_offset_arc 90 60 7 (90 - 6) (60 - sqrt 13) (90 - sqrt 13) (60 - 6) 16
                @ [PLineTo (- 90 + sqrt 13, 60 - 6)]
                @ add_offset_arc (- 90) 60 7 (- 90 + sqrt 13) (60 - 6) (- 90 + 6) (60 - sqrt 13) 16
                @ [PLineTo (- 90 + 6, - 60 + sqrt 13)]
                @ add_offset_arc (- 90) (- 60) 7 (- 90 + 6) (- 60 + sqrt 13) (- 90 + sqrt 13)
                    (- 60 + 6) 16
                @ [PCloseSubpath])"
    using b by (intro build_offset_concave_path_regular) simp_all
  have l: "last (add_offset_arc 90 (- 60) 7 (90 - sqrt 13) (- 60 + 6) (90 - 6) (- 60 + sqrt 13) 16)
             = PLineTo (90 - 6, - 60 + sqrt 13)"
    using add_offset_arc_last [of 16 7 "90 - 6" 90 "- 60 + sqrt 13" "- 60"] by simp
  from path l b show ?thesis by auto
qed

section \<open>The two pieces as point sets\<close>

lemmas sign_evaluation =
  generate_sign_def create_text_solids_def create_border_frame_def
  create_outline_solid_def create_outline_wire_def get_line_texts_def non_empty_indices_def
  choose_sizes_def build_line_data_def size_at_def calc_line_positions_def
  global_line_solids_def text_kwargs_for_style_def try_text_def union_all_def
  auto_font_sizes_def padding_def CHAR_WIDTH_RATIO_def UL_Y_OFFSET_def
  plain_kernel_def default_params_def Let_def strip_samples

lemma generate_sign_underlined_A:
  "generate_sign plain_kernel underlined_A =
     Inr (Some black_underlined_A, Cut (Extrude (Rect (0, 0) 180 120) 3) black_underlined_A)"
  by (simp add: sign_evaluation underlined_A_def black_underlined_A_def upt_rec [of 0])

lemma generate_sign_oversized_A:
  "generate_sign plain_kernel oversized_A =
     Inr (Some black_oversized_A, Cut (Extrude (Rect (0, 0) 180 120) 3) black_oversized_A)"
  by (simp add: sign_evaluation oversized_A_def underlined_A_def black_oversized_A_def
        upt_rec [of 0])

lemma full_plate_A:
  "full_plate underlined_A = Extrude (Rect (0, 0) 180 120) 3"
  "full_plate oversized_A = Extrude (Rect (0, 0) 180 120) 3"
  by (simp_all add: full_plate_def create_outline_solid_def create_outline_wire_def
        oversized_A_def underlined_A_def default_params_def)

lemma generate_sign_Some:
  assumes "generate_sign K p = Inr (Some black, white)"
  shows "white = Cut (full_plate p) black \<and> (\<exists>c. black = Mirror c)"
  using assms
  by (auto simp: generate_sign_def full_plate_def Let_def split: sum.splits if_splits)

lemma mirror_YZ_involution: "mirror_YZ (mirror_YZ q) = q"
  by (simp add: mirror_YZ_def)

lemma points_Mirror: "points G (Mirror a) = {p. mirror_YZ p \<in> points G a}"
proof -
  have "p \<in> mirror_YZ ` S \<longleftrightarrow> mirror_YZ p \<in> S" for p and S :: "point3 set"
  proof
    assume "p \<in> mirror_YZ ` S"
    then obtain q where "q \<in> S" "p = mirror_YZ q" by blast
    then show "mirror_YZ p \<in> S" by (simp add: mirror_YZ_involution)
  next
    assume "mirror_YZ p \<in> S"
    then have "mirror_YZ (mirror_YZ p) \<in> mirror_YZ ` S" by (rule imageI)
    then show "p \<in> mirror_YZ ` S" by (simp add: mirror_YZ_involution)
  qed
  then show ?thesis by (simp add: set_eq_iff)
qed

lemma black_underlined_A_inside:
  "points sample_shapes black_underlined_A \<subseteq> points sample_shapes (Extrude (Rect (0, 0) 180 120) 3)"
proof
  fix p :: point3
  obtain x y z where p: "p = (x, y, z)" by (cases p) auto
  assume "p \<in> points sample_shapes black_underlined_A"
  then have "(\<bar>x\<bar> \<le> 297 / 10 \<and> \<bar>y\<bar> \<le> 54 \<and> 0 \<le> z \<and> z \<le> 6 / 10) \<or>
             (\<bar>x\<bar> \<le> 297 / 10 \<and> \<bar>y + 378 / 10\<bar> \<le> 324 / 100 \<and> 0 \<le> z \<and> z \<le> 6 / 10)"
    by (auto simp: p black_underlined_A_def points_Mirror mirror_YZ_def sample_shapes_def
          CHAR_WIDTH_RATIO_def simp del: points.simps(5))
  then have "\<bar>x\<bar> \<le> 90 \<and> \<bar>y\<bar> \<le> 60 \<and> 0 \<le> z \<and> z \<le> 3" by arith
  then show "p \<in> points sample_shapes (Extrude (Rect (0, 0) 180 120) 3)"
    by (simp add: p)
qed

text \<open>
  C1, as the code has it. When \<open>generate_sign\<close> returns a black piece, the white piece
  is the full plate cut by the black piece, which is a mirrored solid. The two pieces
  have no point in common, and together they cover the plate and the black piece.
  Their union is the full plate exactly when the black piece lies within the plate.
\<close>

theorem generate_sign_pieces:
  assumes "generate_sign K p = Inr (Some black, white)"
  shows "white = Cut (full_plate p) black \<and>
         (\<exists>combined. black = Mirror combined) \<and>
         points G black \<inter> points G white = {} \<and>
         points G black \<union> points G white = points G (full_plate p) \<union> points G black \<and>
         (points G black \<union> points G white = points G (full_plate p)
            \<longleftrightarrow> points G black \<subseteq> points G (full_plate p))"
proof -
  from generate_sign_Some [OF assms]
  have w: "white = Cut (full_plate p) black" and m: "\<exists>c. black = Mirror c" by simp_all
  have "points G white = points G (full_plate p) - points G black"
    by (simp add: w)
  then show ?thesis using w m by auto
qed

text \<open>The underlined \<open>A\<close> at the automatic size 108: text box and underline lie within
  the 180 by 120 by 3 plate, and the two pieces partition the plate.\<close>

theorem generate_sign_pieces_witness:
  "generate_sign plain_kernel underlined_A =
     Inr (Some black_underlined_A, Cut (Extrude (Rect (0, 0) 180 120) 3) black_underlined_A) \<and>
   points sample_shapes black_underlined_A
     \<inter> points sample_shapes (Cut (Extrude (Rect (0, 0) 180 120) 3) black_underlined_A) = {} \<and>
   points sample_shapes black_underlined_A \<subseteq> points sample_shapes (full_plate underlined_A) \<and>
   points sample_shapes black_underlined_A
     \<union> points sample_shapes (Cut (Extrude (Rect (0, 0) 180 120) 3) black_underlined_A)
     = points sample_shapes (full_plate underlined_A)"
proof -
  note t = generate_sign_pieces [OF generate_sign_underlined_A, of sample_shapes]
  have inside: "points sample_shapes black_underlined_A
                  \<subseteq> points sample_shapes (full_plate underlined_A)"
    unfolding full_plate_A by (rule black_underlined_A_inside)
  from t inside generate_sign_underlined_A show ?thesis by blast
qed

text \<open>C1 as the specification states it fails when the black piece leaves the
  plate: the underlined \<open>A\<close> at the explicit size 1000 has its underline centred at
  (0, -350), so the point (0, -350, 0) is in the black piece and not in the 180 by
  120 plate, and the union of the two pieces is not the plate.\<close>

theorem generate_sign_union_counterexample:
  "generate_sign plain_kernel oversized_A =
     Inr (Some black_oversized_A, Cut (full_plate oversized_A) black_oversized_A) \<and>
   (0, - 350, 0) \<in> points sample_shapes black_oversized_A \<and>
   (0, - 350, 0) \<notin> points sample_shapes (full_plate oversized_A) \<and>
   points sample_shapes black_oversized_A
     \<union> points sample_shapes (Cut (full_plate oversized_A) black_oversized_A)
     \<noteq> points sample_shapes (full_plate oversized_A)"
proof -
  have g: "generate_sign plain_kernel oversized_A
             = Inr (Some black_oversized_A, Cut (full_plate oversized_A) black_oversized_A)"
    unfolding full_plate_A by (rule generate_sign_oversized_A)
  have i: "(0, - 350, 0) \<in> points sample_shapes black_oversized_A"
    by (simp add: black_oversized_A_def points_Mirror mirror_YZ_def del: points.simps(5))
  have o: "(0, - 350, 0) \<notin> points sample_shapes (full_plate oversized_A)"
    by (simp add: full_plate_A)
  from i o have "points sample_shapes black_oversized_A
      \<union> points sample_shapes (Cut (full_plate oversized_A) black_oversized_A)
      \<noteq> points sample_shapes (full_plate oversized_A)"
    by blast
  with g i o show ?thesis by blast
qed

end
